theory Spec2Isabelle
  imports Main "HOL-Library.Word" "HOL-Library.Sublist"
begin

section \<open>The GitHub storage backend of Empire\<close>

text \<open>
  A shallow embedding of the package \<^verbatim>\<open>github\<close> (the storage backend that keeps
  application configuration in a GitHub repository): \<^verbatim>\<open>PathJoin\<close>,
  \<^verbatim>\<open>treeEntries\<close>, \<^verbatim>\<open>loadApp\<close>, \<^verbatim>\<open>ReleasesCreate\<close>, \<^verbatim>\<open>Releases\<close>,
  \<^verbatim>\<open>Apps\<close> and \<^verbatim>\<open>AppsFind\<close>.

  Go strings are byte sequences and so are Isabelle's: a \<^typ>\<open>string\<close> is a list of
  8-bit characters. Go's \<^verbatim>\<open>int\<close> is taken at its 64-bit width.
\<close>

subsection \<open>What the package uses of Go's standard library\<close>

type_synonym go_int = "64 word"

text \<open>\<^verbatim>\<open>strings.Join\<close>.\<close>

fun strings_Join :: "string list \<Rightarrow> string \<Rightarrow> string" where
  "strings_Join [] sep = []"
| "strings_Join [x] sep = x"
| "strings_Join (x # y # ys) sep = x @ sep @ strings_Join (y # ys) sep"

text \<open>
  \<^verbatim>\<open>url.QueryEscape\<close>: letters, digits and \<^verbatim>\<open>- _ . ~\<close> stay, a space becomes
  \<^verbatim>\<open>+\<close>, every other byte becomes \<^verbatim>\<open>%XX\<close> in upper-case hexadecimal.
\<close>

definition is_digit :: "char \<Rightarrow> bool" where
  "is_digit c = (48 \<le> (of_char c :: nat) \<and> (of_char c :: nat) \<le> 57)"

definition is_letter :: "char \<Rightarrow> bool" where
  "is_letter c =
     ((97 \<le> (of_char c :: nat) \<and> (of_char c :: nat) \<le> 122) \<or>
      (65 \<le> (of_char c :: nat) \<and> (of_char c :: nat) \<le> 90))"

definition shouldEscape :: "char \<Rightarrow> bool" where
  "shouldEscape c =
     (if is_letter c \<or> is_digit c then False
      else if c = CHR ''-'' \<or> c = CHR ''_'' \<or> c = CHR ''.'' \<or> c = CHR ''~'' then False
      else True)"

definition upperhex :: string where
  "upperhex = ''0123456789ABCDEF''"

definition escape_byte :: "char \<Rightarrow> string" where
  "escape_byte c =
     (if shouldEscape c then
        (if c = CHR '' '' then ''+''
         else [CHR ''%'', upperhex ! ((of_char c :: nat) div 16),
               upperhex ! ((of_char c :: nat) mod 16)])
      else [c])"

definition QueryEscape :: "string \<Rightarrow> string" where
  "QueryEscape s = concat (map escape_byte s)"

text \<open>
  \<^verbatim>\<open>fmt.Sprintf("%d", n)\<close> for an \<^verbatim>\<open>int\<close>: the decimal digits of the signed value, with
  a minus sign in front of a negative one.
\<close>

definition digit_char :: "nat \<Rightarrow> char" where
  "digit_char d = char_of (48 + d)"

fun digits :: "nat \<Rightarrow> string" where
  "digits n = (if n < 10 then [digit_char n] else digits (n div 10) @ [digit_char (n mod 10)])"

declare digits.simps [simp del]

definition FormatInt :: "int \<Rightarrow> string" where
  "FormatInt i = (if i < 0 then CHR ''-'' # digits (nat (- i)) else digits (nat i))"

definition Sprintf_d :: "go_int \<Rightarrow> string" where
  "Sprintf_d v = FormatInt (sint v)"

text \<open>
  \<^verbatim>\<open>strconv.Atoi\<close>, which is \<^verbatim>\<open>ParseInt(s, 10, 0)\<close>: an optional sign, then at least
  one decimal digit, read from left to right by \<^verbatim>\<open>ParseUint\<close>, which reports a syntax
  error at the first byte that is no digit and a range error as soon as the value leaves
  64 bits; the signed value must fit the \<^verbatim>\<open>int\<close>.
\<close>

datatype num_err = ErrSyntax | ErrRange

fun ParseUint :: "nat \<Rightarrow> string \<Rightarrow> num_err + nat" where
  "ParseUint n [] = Inr n"
| "ParseUint n (c # cs) =
     (if \<not> is_digit c then Inl ErrSyntax
      else if 2 ^ 64 \<le> n * 10 + ((of_char c :: nat) - 48) then Inl ErrRange
      else ParseUint (n * 10 + ((of_char c :: nat) - 48)) cs)"

definition ParseInt :: "string \<Rightarrow> num_err + go_int" where
  "ParseInt s =
     (case s of
        [] \<Rightarrow> Inl ErrSyntax
      | c # cs \<Rightarrow>
          (let neg = (c = CHR ''-'');
               body = (if c = CHR ''+'' \<or> c = CHR ''-'' then cs else s)
           in if body = [] then Inl ErrSyntax
              else (case ParseUint 0 body of
                      Inl ErrSyntax \<Rightarrow> Inl ErrSyntax
                    | Inl ErrRange \<Rightarrow> Inl ErrRange
                    | Inr un \<Rightarrow>
                        if \<not> neg \<and> 2 ^ 63 \<le> un then Inl ErrRange
                        else if neg \<and> 2 ^ 63 < un then Inl ErrRange
                        else Inr (if neg then - word_of_nat un else word_of_nat un))))"

text \<open>
  What a string denotes as a decimal integer, in the specification's words: an optional
  sign and then digits, at least one.
\<close>

definition dec_value :: "nat \<Rightarrow> string \<Rightarrow> nat" where
  \<comment> \<open>the value of the digits, read after a number already read\<close>
  "dec_value n ds = foldl (\<lambda>n c. n * 10 + ((of_char c :: nat) - 48)) n ds"

definition decimal_int :: "string \<Rightarrow> int option" where
  "decimal_int s =
     (case s of
        [] \<Rightarrow> None
      | c # cs \<Rightarrow>
          (let body = (if c = CHR ''+'' \<or> c = CHR ''-'' then cs else s)
           in if body \<noteq> [] \<and> list_all is_digit body
              then Some (if c = CHR ''-'' then - int (dec_value 0 body) else int (dec_value 0 body))
              else None))"

text \<open>
  \<^verbatim>\<open>strings.TrimSpace\<close> removes, at both ends, the code points for which
  \<^verbatim>\<open>unicode.IsSpace\<close> holds. On the bytes of a string these are the UTF-8 encodings
  below: U+0009 to U+000D, U+0020, U+0085, U+00A0, U+1680, U+2000 to U+200A, U+2028,
  U+2029, U+202F, U+205F and U+3000. A byte sequence that is not valid UTF-8 decodes to
  the replacement character, which is no space.
\<close>

definition space_runes :: "string list" where
  "space_runes =
     [[CHR 0x09], [CHR 0x0A], [CHR 0x0B], [CHR 0x0C], [CHR 0x0D], [CHR 0x20],
      [CHR 0xC2, CHR 0x85], [CHR 0xC2, CHR 0xA0],
      [CHR 0xE1, CHR 0x9A, CHR 0x80],
      [CHR 0xE2, CHR 0x80, CHR 0x80], [CHR 0xE2, CHR 0x80, CHR 0x81],
      [CHR 0xE2, CHR 0x80, CHR 0x82], [CHR 0xE2, CHR 0x80, CHR 0x83],
      [CHR 0xE2, CHR 0x80, CHR 0x84], [CHR 0xE2, CHR 0x80, CHR 0x85],
      [CHR 0xE2, CHR 0x80, CHR 0x86], [CHR 0xE2, CHR 0x80, CHR 0x87],
      [CHR 0xE2, CHR 0x80, CHR 0x88], [CHR 0xE2, CHR 0x80, CHR 0x89],
      [CHR 0xE2, CHR 0x80, CHR 0x8A],
      [CHR 0xE2, CHR 0x80, CHR 0xA8], [CHR 0xE2, CHR 0x80, CHR 0xA9],
      [CHR 0xE2, CHR 0x80, CHR 0xAF], [CHR 0xE2, CHR 0x81, CHR 0x9F],
      [CHR 0xE3, CHR 0x80, CHR 0x80]]"

definition rune_width :: "string list \<Rightarrow> string \<Rightarrow> nat" where
  \<comment> \<open>the length of the first of the given byte sequences that the string starts with\<close>
  "rune_width runes s = (case find (\<lambda>r. prefix r s) runes of None \<Rightarrow> 0 | Some r \<Rightarrow> length r)"

function trim_front :: "string list \<Rightarrow> string \<Rightarrow> string" where
  "trim_front runes s =
     (if rune_width runes s = 0 \<or> s = [] then s
      else trim_front runes (drop (rune_width runes s) s))"
  by pat_completeness auto
termination
  by (relation "measure (\<lambda>(runes, s). length s)") auto

declare trim_front.simps [simp del]

definition TrimSpace :: "string \<Rightarrow> string" where
  "TrimSpace s = rev (trim_front (map rev space_runes) (rev (trim_front space_runes s)))"

definition printable :: "char \<Rightarrow> bool" where
  \<comment> \<open>the visible characters of ASCII; none of them begins or ends the encoding of a space\<close>
  "printable c = (32 < (of_char c :: nat) \<and> (of_char c :: nat) < 127)"

subsection \<open>Paths\<close>

definition DirectorySeparator :: string where
  "DirectorySeparator = ''/''"

definition BlobPerms :: string where
  "BlobPerms = ''100644''"

definition FileVersion :: string where
  "FileVersion = ''VERSION''"

definition FileEnv :: string where
  "FileEnv = ''app.env''"

definition FileImage :: string where
  "FileImage = ''image.txt''"

definition FileServices :: string where
  "FileServices = ''services.json''"

definition PathJoin :: "string \<Rightarrow> string list \<Rightarrow> string" where
  "PathJoin basepath elem = strings_Join (basepath # map QueryEscape elem) DirectorySeparator"

text \<open>
  The specification asks that a joined path be "lexically under" the base path. Following
  its words: the path is the base path, or goes on below it after a separator, and
  resolving the segments \<^verbatim>\<open>.\<close> and \<^verbatim>\<open>..\<close> of what follows from left to right, the way
  \<^verbatim>\<open>path.Clean\<close> does, never climbs above the base path.
\<close>

fun split_path :: "string \<Rightarrow> string \<Rightarrow> string list" where
  \<comment> \<open>the segments between the separators; the first argument is the segment begun\<close>
  "split_path seg [] = [seg]"
| "split_path seg (c # cs) =
     (if c = CHR ''/'' then seg # split_path [] cs else split_path (seg @ [c]) cs)"

fun stays_within :: "nat \<Rightarrow> string list \<Rightarrow> bool" where
  \<comment> \<open>the first argument is the depth below the base path\<close>
  "stays_within depth [] = True"
| "stays_within depth (seg # segs) =
     (if seg = ''..'' then 0 < depth \<and> stays_within (depth - 1) segs
      else if seg = ''.'' \<or> seg = [] then stays_within depth segs
      else stays_within (Suc depth) segs)"

definition lexically_under :: "string \<Rightarrow> string \<Rightarrow> bool" where
  "lexically_under base p =
     (p = base \<or>
      (prefix (base @ ''/'') p \<and> stays_within 0 (split_path [] (drop (length base + 1) p))))"

subsection \<open>Errors and panics\<close>

text \<open>
  A Go \<^verbatim>\<open>error\<close> is a value; the constructors below are the places of the package
  that make one. An error of a library outside the package is kept by its message.
  \<^verbatim>\<open>fmt.Errorf\<close> with \<^verbatim>\<open>%v\<close> prints the wrapped error's message; the wrapped error
  is kept here as it is.
\<close>

datatype error =
    GitHubError string
  | CodecError string
  | NumError string string num_err
  | ErrorsNew string
  | NotFoundError error
  | Errorf_get_ref string error
  | Errorf_get_last_commit string error
  | Errorf_generating_tree error
  | Errorf_creating_tree error
  | Errorf_creating_commit error
  | Errorf_merging string string error
  | Errorf_get_contents_in string string error
  | Errorf_get_contents_of string error
  | Errorf_decoding string error

datatype panic = NilDereference | SliceBounds

datatype failure = Error error | Panic panic

definition Atoi :: "string \<Rightarrow> error + go_int" where
  "Atoi s = (case ParseInt s of Inl k \<Rightarrow> Inl (NumError ''Atoi'' s k) | Inr v \<Rightarrow> Inr v)"

subsection \<open>The data model\<close>

text \<open>
  \<^verbatim>\<open>empire.App\<close>, \<^verbatim>\<open>empire.Release\<close> and the packages \<^verbatim>\<open>dotenv\<close> and \<^verbatim>\<open>image\<close> are
  declared outside the files at hand. The storage backend only hands an environment, an
  image and a formation to their codecs and tests them for \<^verbatim>\<open>nil\<close>, so their types
  are parameters here and \<^verbatim>\<open>nil\<close> is \<open>None\<close>.
\<close>

record ('env, 'img, 'form) App =
  Name :: string
  Version :: go_int
  Environment :: "'env option"
  Image :: "'img option"
  Formation :: "'form option"

type_synonym time = nat

record ('env, 'img, 'form) Release =
  App :: "('env, 'img, 'form) App"
  Description :: string
  CreatedAt :: "time option"

text \<open>
  The codecs the package calls: \<^verbatim>\<open>dotenv.Write\<close> (what it leaves in the buffer) and
  \<^verbatim>\<open>dotenv.Read\<close>, \<^verbatim>\<open>Image.String\<close> and \<^verbatim>\<open>image.Decode\<close>, \<^verbatim>\<open>json.MarshalIndent\<close>
  (value, prefix, indent) and \<^verbatim>\<open>json.Unmarshal\<close> into the formation (the bytes and the
  formation's present value). \<open>Inl\<close> carries the message of the error returned.
\<close>

record ('env, 'img, 'form) codecs =
  dotenv_Write :: "'env \<Rightarrow> string + string"
  dotenv_Read :: "string \<Rightarrow> string + 'env option"
  image_String :: "'img \<Rightarrow> string"
  image_Decode :: "string \<Rightarrow> string + 'img"
  json_MarshalIndent :: "'form \<Rightarrow> string \<Rightarrow> string \<Rightarrow> string + string"
  json_Unmarshal :: "string \<Rightarrow> 'form option \<Rightarrow> string + 'form option"

text \<open>
  The objects of the go-github client, with the fields the package reads. A pointer
  field is an option: dereferencing \<open>None\<close> panics.
\<close>

record GitObject =
  object_SHA :: "string option"

record Reference =
  Object :: "GitObject option"

record Tree =
  tree_SHA :: "string option"

record CommitAuthor =
  Date :: "time option"

datatype Commit =
  Commit (commit_SHA: "string option") (Message: "string option") (commit_Tree: "Tree option")
    (Parents: "Commit list") (Committer: "CommitAuthor option")

record RepositoryCommit =
  SHA :: "string option"
  repository_Commit :: "Commit option"

record TreeEntry =
  Path :: string
  Type :: string
  Mode :: string
  Content :: string

text \<open>
  A \<^verbatim>\<open>RepositoryContent\<close>; \<open>Decode\<close> is what its method \<^verbatim>\<open>Decode()\<close> returns, the
  raw bytes or the message of an error.
\<close>

record RepositoryContent =
  content_Type :: "string option"
  content_Name :: "string option"
  Decode :: "string + string"

text \<open>
  The client: every call answers with the message of an error or with its result. The
  arguments are those of the Go call, the fields of an options structure in the order
  they are written (\<^verbatim>\<open>ListCommits\<close>: owner, repo, SHA, Path; \<^verbatim>\<open>GetContents\<close>: owner,
  repo, path, Ref; \<^verbatim>\<open>Merge\<close>: owner, repo, Base, Head). \<^verbatim>\<open>GetContents\<close> answers with
  the file (\<^verbatim>\<open>nil\<close> for a directory) and the directory listing. Within one operation of
  the package no request is sent twice with the same arguments, except by \<^verbatim>\<open>Releases\<close>
  for a commit that the log lists twice, so a table from requests to answers describes
  the client of a run.
\<close>

type_synonym contents = "RepositoryContent option \<times> RepositoryContent option list"

record github_client =
  Git_GetRef :: "string \<Rightarrow> string \<Rightarrow> string \<Rightarrow> string + Reference"
  Git_GetCommit :: "string \<Rightarrow> string \<Rightarrow> string \<Rightarrow> string + Commit"
  Git_CreateTree :: "string \<Rightarrow> string \<Rightarrow> string \<Rightarrow> TreeEntry list \<Rightarrow> string + Tree"
  Git_CreateCommit :: "string \<Rightarrow> string \<Rightarrow> Commit \<Rightarrow> string + Commit"
  Repositories_Merge :: "string \<Rightarrow> string \<Rightarrow> string option \<Rightarrow> string option \<Rightarrow> string + unit"
  Repositories_ListCommits :: "string \<Rightarrow> string \<Rightarrow> string \<Rightarrow> string \<Rightarrow> string + RepositoryCommit list"
  Repositories_GetContents :: "string \<Rightarrow> string \<Rightarrow> string \<Rightarrow> string \<Rightarrow> string + contents"

record Storage =
  Owner :: string
  Repo :: string
  BasePath :: string
  Ref :: string
  github :: github_client

text \<open>The requests \<^verbatim>\<open>ReleasesCreate\<close> sends, in the order it sends them.\<close>

datatype call =
    Call_GetRef string string string
  | Call_GetCommit string string string
  | Call_CreateTree string string string "TreeEntry list"
  | Call_CreateCommit string string Commit
  | Call_Merge string string "string option" "string option"

record AppsQuery =
  query_Name :: "string option"

record ('env, 'img, 'form) ReleasesQuery =
  query_App :: "('env, 'img, 'form) App option"

subsection \<open>The configuration codec\<close>

definition Storage_Path :: "Storage \<Rightarrow> string list \<Rightarrow> string" where
  "Storage_Path s elem = PathJoin (BasePath s) elem"

definition jsonMarshal :: "('env, 'img, 'form) codecs \<Rightarrow> 'form \<Rightarrow> string + string" where
  "jsonMarshal c v = json_MarshalIndent c v [] ''  ''"

definition blob :: "string \<Rightarrow> string \<Rightarrow> TreeEntry" where
  \<comment> \<open>the \<^verbatim>\<open>github.TreeEntry\<close> literal that \<^verbatim>\<open>treeEntries\<close> writes four times\<close>
  "blob path content = \<lparr>Path = path, Type = ''blob'', Mode = BlobPerms, Content = content\<rparr>"

definition treeEntries ::
  "('env, 'img, 'form) codecs \<Rightarrow> Storage \<Rightarrow> ('env, 'img, 'form) App \<Rightarrow> error + TreeEntry list" where
  "treeEntries c s app =
     (let entries = [blob (Storage_Path s [Name app, FileVersion]) (''v'' @ Sprintf_d (Version app))]
      in case (case Environment app of
                 None \<Rightarrow> Inr entries
               | Some env \<Rightarrow>
                   (case dotenv_Write c env of
                      Inl err \<Rightarrow> Inl (CodecError err)
                    | Inr envFile \<Rightarrow>
                        Inr (entries @ [blob (Storage_Path s [Name app, FileEnv]) envFile]))) of
           Inl err \<Rightarrow> Inl err
         | Inr entries \<Rightarrow>
             (let entries =
                    (case Image app of
                       None \<Rightarrow> entries
                     | Some img \<Rightarrow>
                         entries @ [blob (Storage_Path s [Name app, FileImage]) (image_String c img)])
              in case Formation app of
                   None \<Rightarrow> Inr entries
                 | Some fm \<Rightarrow>
                     (case jsonMarshal c fm of
                        Inl err \<Rightarrow> Inl (CodecError err)
                      | Inr formation \<Rightarrow>
                          Inr (entries @ [blob (Storage_Path s [Name app, FileServices]) formation]))))"

type_synonym contentFetcher = "string list \<Rightarrow> string + contents"

definition fileContent :: "contentFetcher \<Rightarrow> string \<Rightarrow> failure + string" where
  "fileContent f path =
     (case f [path] of
        Inl err \<Rightarrow> Inl (Error (Errorf_get_contents_of path (GitHubError err)))
      | Inr (file, directory) \<Rightarrow>
          (case file of
             None \<Rightarrow> Inl (Panic NilDereference)
           | Some fc \<Rightarrow>
               (case Decode fc of
                  Inl err \<Rightarrow> Inl (Error (Errorf_decoding path (GitHubError err)))
                | Inr raw \<Rightarrow> Inr raw)))"

definition decodeFile ::
  "('env, 'img, 'form) codecs \<Rightarrow> contentFetcher \<Rightarrow> string \<Rightarrow> 'form option \<Rightarrow> failure + 'form option" where
  "decodeFile c f path v =
     (case fileContent f path of
        Inl err \<Rightarrow> Inl err
      | Inr raw \<Rightarrow>
          (case json_Unmarshal c raw v of
             Inl err \<Rightarrow> Inl (Error (CodecError err))
           | Inr v' \<Rightarrow> Inr v'))"

text \<open>
  \<^verbatim>\<open>loadApp\<close> writes into the application it is given and returns it, or returns
  \<^verbatim>\<open>nil\<close> and an error; both callers pass an application of their own making and drop
  it on an error. \<^verbatim>\<open>strings.TrimSpace(string(version))[1:]\<close> panics on an empty string.
\<close>

definition loadApp ::
  "('env, 'img, 'form) codecs \<Rightarrow> contentFetcher \<Rightarrow> ('env, 'img, 'form) App \<Rightarrow>
     failure + ('env, 'img, 'form) App" where
  "loadApp c f app =
     (case fileContent f (PathJoin (Name app) [FileVersion]) of
        Inl err \<Rightarrow> Inl err
      | Inr version \<Rightarrow>
     (case TrimSpace version of
        [] \<Rightarrow> Inl (Panic SliceBounds)
      | first # rest \<Rightarrow>
     (case Atoi rest of
        Inl err \<Rightarrow> Inl (Error err)
      | Inr vi \<Rightarrow>
     (let app = app\<lparr>Version := vi\<rparr>
      in case decodeFile c f (PathJoin (Name app) [FileServices]) (Formation app) of
        Inl err \<Rightarrow> Inl err
      | Inr formation \<Rightarrow>
     (let app = app\<lparr>Formation := formation\<rparr>
      in case fileContent f (PathJoin (Name app) [FileImage]) of
        Inl err \<Rightarrow> Inl err
      | Inr imageContent \<Rightarrow>
     (case image_Decode c imageContent of
        Inl err \<Rightarrow> Inl (Error (CodecError err))
      | Inr img \<Rightarrow>
     (let app = app\<lparr>Image := Some img\<rparr>
      in case fileContent f (PathJoin (Name app) [FileEnv]) of
        Inl err \<Rightarrow> Inl err
      | Inr envContent \<Rightarrow>
     (case dotenv_Read c envContent of
        Inl err \<Rightarrow> Inl (Error (CodecError err))
      | Inr env \<Rightarrow> Inr (app\<lparr>Environment := env\<rparr>)))))))))"

subsection \<open>The storage operations\<close>

definition GetContentsAtRef :: "Storage \<Rightarrow> string \<Rightarrow> contentFetcher" where
  "GetContentsAtRef s ref =
     (\<lambda>elem. Repositories_GetContents (github s) (Owner s) (Repo s) (Storage_Path s elem) ref)"

definition GetContents :: "Storage \<Rightarrow> contentFetcher" where
  "GetContents s = GetContentsAtRef s (Ref s)"

text \<open>
  \<^verbatim>\<open>ReleasesCreate\<close> increments the version of the application it is given, in place,
  before anything else. The result is what it returns, the application as the caller
  finds it afterwards, and the requests sent to the client.
\<close>

definition ReleasesCreate ::
  "('env, 'img, 'form) codecs \<Rightarrow> Storage \<Rightarrow> ('env, 'img, 'form) App \<Rightarrow> string \<Rightarrow>
     (failure + ('env, 'img, 'form) Release) \<times> ('env, 'img, 'form) App \<times> call list" where
  "ReleasesCreate c s app0 description =
     (let app = app0\<lparr>Version := Version app0 + 1\<rparr>;
          sent1 = [Call_GetRef (Owner s) (Repo s) (Ref s)]
      in case Git_GetRef (github s) (Owner s) (Repo s) (Ref s) of
        Inl err \<Rightarrow> (Inl (Error (Errorf_get_ref (Ref s) (GitHubError err))), app, sent1)
      | Inr ref \<Rightarrow>
     (case Object ref of
        None \<Rightarrow> (Inl (Panic NilDereference), app, sent1)
      | Some obj \<Rightarrow>
     (case object_SHA obj of
        None \<Rightarrow> (Inl (Panic NilDereference), app, sent1)
      | Some sha \<Rightarrow>
     (let sent2 = sent1 @ [Call_GetCommit (Owner s) (Repo s) sha]
      in case Git_GetCommit (github s) (Owner s) (Repo s) sha of
        Inl err \<Rightarrow> (Inl (Error (Errorf_get_last_commit sha (GitHubError err))), app, sent2)
      | Inr lastCommit \<Rightarrow>
     (case treeEntries c s app of
        Inl err \<Rightarrow> (Inl (Error (Errorf_generating_tree err)), app, sent2)
      | Inr entries \<Rightarrow>
     (case commit_Tree lastCommit of
        None \<Rightarrow> (Inl (Panic NilDereference), app, sent2)
      | Some base \<Rightarrow>
     (case tree_SHA base of
        None \<Rightarrow> (Inl (Panic NilDereference), app, sent2)
      | Some baseSHA \<Rightarrow>
     (let sent3 = sent2 @ [Call_CreateTree (Owner s) (Repo s) baseSHA entries]
      in case Git_CreateTree (github s) (Owner s) (Repo s) baseSHA entries of
        Inl err \<Rightarrow> (Inl (Error (Errorf_creating_tree (GitHubError err))), app, sent3)
      | Inr tree \<Rightarrow>
     (let new = Commit None (Some description) (Some tree) [lastCommit] None;
          sent4 = sent3 @ [Call_CreateCommit (Owner s) (Repo s) new]
      in case Git_CreateCommit (github s) (Owner s) (Repo s) new of
        Inl err \<Rightarrow> (Inl (Error (Errorf_creating_commit (GitHubError err))), app, sent4)
      | Inr commit \<Rightarrow>
     (let sent5 = sent4 @ [Call_Merge (Owner s) (Repo s) (Some (Ref s)) (commit_SHA commit)]
      in case Repositories_Merge (github s) (Owner s) (Repo s) (Some (Ref s)) (commit_SHA commit) of
        Inl err \<Rightarrow>
          (case commit_SHA commit of
             None \<Rightarrow> (Inl (Panic NilDereference), app, sent5)
           | Some head \<Rightarrow>
               (Inl (Error (Errorf_merging head (Ref s) (GitHubError err))), app, sent5))
      | Inr merged \<Rightarrow>
          (Inr \<lparr>App = app, Description = description, CreatedAt = None\<rparr>, app, sent5)))))))))))"

text \<open>
  The loop of \<^verbatim>\<open>Releases\<close> over the commits of the log, appending to \<^verbatim>\<open>releases\<close>.
  Each commit gets a fetcher bound to its SHA and a new application that has the name only.
\<close>

definition named :: "string \<Rightarrow> ('env, 'img, 'form) App" where
  \<comment> \<open>\<^verbatim>\<open>&empire.App{Name: name}\<close>\<close>
  "named name = \<lparr>Name = name, Version = 0, Environment = None, Image = None, Formation = None\<rparr>"

fun Releases_loop ::
  "('env, 'img, 'form) codecs \<Rightarrow> Storage \<Rightarrow> string \<Rightarrow> RepositoryCommit list \<Rightarrow>
     ('env, 'img, 'form) Release list \<Rightarrow> failure + ('env, 'img, 'form) Release list" where
  "Releases_loop c s name [] releases = Inr releases"
| "Releases_loop c s name (commit # commits) releases =
     (case SHA commit of
        None \<Rightarrow> Inl (Panic NilDereference)
      | Some sha \<Rightarrow>
     (case loadApp c (GetContentsAtRef s sha) (named name) of
        Inl err \<Rightarrow> Inl err
      | Inr app \<Rightarrow>
     (case repository_Commit commit of
        None \<Rightarrow> Inl (Panic NilDereference)
      | Some gitCommit \<Rightarrow>
     (case Message gitCommit of
        None \<Rightarrow> Inl (Panic NilDereference)
      | Some message \<Rightarrow>
     (case Committer gitCommit of
        None \<Rightarrow> Inl (Panic NilDereference)
      | Some committer \<Rightarrow>
          Releases_loop c s name commits
            (releases @ [\<lparr>App = app, Description = message, CreatedAt = Date committer\<rparr>]))))))"

definition Releases ::
  "('env, 'img, 'form) codecs \<Rightarrow> Storage \<Rightarrow> ('env, 'img, 'form) ReleasesQuery \<Rightarrow>
     failure + ('env, 'img, 'form) Release list" where
  "Releases c s q =
     (case query_App q of
        None \<Rightarrow> Inl (Panic NilDereference)
      | Some app \<Rightarrow>
          (case Repositories_ListCommits (github s) (Owner s) (Repo s) (Ref s)
                  (Storage_Path s [Name app, FileVersion]) of
             Inl err \<Rightarrow> Inl (Error (GitHubError err))
           | Inr commits \<Rightarrow> Releases_loop c s (Name app) commits []))"

fun Apps_loop ::
  "RepositoryContent option list \<Rightarrow> ('env, 'img, 'form) App list \<Rightarrow>
     failure + ('env, 'img, 'form) App list" where
  "Apps_loop [] apps = Inr apps"
| "Apps_loop (f # fs) apps =
     (case f of
        None \<Rightarrow> Inl (Panic NilDereference)
      | Some entry \<Rightarrow>
     (case content_Type entry of
        None \<Rightarrow> Inl (Panic NilDereference)
      | Some t \<Rightarrow>
          if t = ''dir'' then
            (case content_Name entry of
               None \<Rightarrow> Inl (Panic NilDereference)
             | Some name \<Rightarrow> Apps_loop fs (apps @ [named name]))
          else Apps_loop fs apps))"

fun filter_apps ::
  "('env, 'img, 'form) App list \<Rightarrow> (('env, 'img, 'form) App \<Rightarrow> bool) \<Rightarrow>
     ('env, 'img, 'form) App list \<Rightarrow> ('env, 'img, 'form) App list" where
  \<comment> \<open>\<^verbatim>\<open>filter\<close>, with the list \<^verbatim>\<open>filtered\<close> it appends to as last argument\<close>
  "filter_apps [] fn filtered = filtered"
| "filter_apps (app # apps) fn filtered =
     (if fn app then filter_apps apps fn (filtered @ [app]) else filter_apps apps fn filtered)"

definition filterApps ::
  "('env, 'img, 'form) App list \<Rightarrow> AppsQuery \<Rightarrow> ('env, 'img, 'form) App list" where
  "filterApps apps q =
     (case query_Name q of
        None \<Rightarrow> apps
      | Some name \<Rightarrow> filter_apps apps (\<lambda>app. Name app = name) [])"

definition Apps :: "Storage \<Rightarrow> AppsQuery \<Rightarrow> failure + ('env, 'img, 'form) App list" where
  "Apps s q =
     (case GetContents s [] of
        Inl err \<Rightarrow> Inl (Error (Errorf_get_contents_in (BasePath s) (Ref s) (GitHubError err)))
      | Inr (file, directoryContent) \<Rightarrow>
          (case Apps_loop directoryContent [] of
             Inl err \<Rightarrow> Inl err
           | Inr apps \<Rightarrow> Inr (filterApps apps q)))"

definition AppsFind ::
  "('env, 'img, 'form) codecs \<Rightarrow> Storage \<Rightarrow> AppsQuery \<Rightarrow> failure + ('env, 'img, 'form) App" where
  "AppsFind c s q =
     (case Apps s q of
        Inl err \<Rightarrow> Inl err
      | Inr apps \<Rightarrow>
          if length apps = 0 then Inl (Error (NotFoundError (ErrorsNew ''app not found'')))
          else loadApp c (GetContents s) (apps ! 0))"

subsection \<open>Notions the properties are stated with\<close>

text \<open>
  A fetcher serves back what the encoder wrote: asked for one path, it answers with the
  content of the entry written at another. (\<^verbatim>\<open>loadApp\<close> asks for the name and the
  file joined; \<^verbatim>\<open>treeEntries\<close> writes below the base path.)
\<close>

definition serves :: "contentFetcher \<Rightarrow> TreeEntry list \<Rightarrow> string \<Rightarrow> string \<Rightarrow> bool" where
  "serves f entries written asked =
     (\<exists>e \<in> set entries. Path e = written \<and> fileContent f asked = Inr (Content e))"

text \<open>
  A caller that releases the same application again and again, each time with the
  storage (and the client's answers) of that moment and a description, and stops at the
  first release that fails.
\<close>

fun ReleasesCreate_seq ::
  "('env, 'img, 'form) codecs \<Rightarrow> (Storage \<times> string) list \<Rightarrow> ('env, 'img, 'form) App \<Rightarrow>
     failure + ('env, 'img, 'form) App" where
  "ReleasesCreate_seq c [] app = Inr app"
| "ReleasesCreate_seq c (run # runs) app =
     (case fst (ReleasesCreate c (fst run) app (snd run)) of
        Inl err \<Rightarrow> Inl err
      | Inr release \<Rightarrow> ReleasesCreate_seq c runs (fst (snd (ReleasesCreate c (fst run) app (snd run)))))"

fun is_write :: "call \<Rightarrow> bool" where
  \<comment> \<open>the requests that create something in the repository\<close>
  "is_write (Call_GetRef owner repo ref) = False"
| "is_write (Call_GetCommit owner repo sha) = False"
| "is_write (Call_CreateTree owner repo base entries) = True"
| "is_write (Call_CreateCommit owner repo commit) = True"
| "is_write (Call_Merge owner repo base head) = True"

text \<open>
  Whether an error names a path: the path stands in one of the strings the error is made
  of, which are the messages of the errors of libraries and the operands that the
  package formats into its own errors.
\<close>

fun error_strings :: "error \<Rightarrow> string list" where
  "error_strings (GitHubError msg) = [msg]"
| "error_strings (CodecError msg) = [msg]"
| "error_strings (NumError fn num k) = [fn, num]"
| "error_strings (ErrorsNew msg) = [msg]"
| "error_strings (NotFoundError err) = error_strings err"
| "error_strings (Errorf_get_ref ref err) = ref # error_strings err"
| "error_strings (Errorf_get_last_commit sha err) = sha # error_strings err"
| "error_strings (Errorf_generating_tree err) = error_strings err"
| "error_strings (Errorf_creating_tree err) = error_strings err"
| "error_strings (Errorf_creating_commit err) = error_strings err"
| "error_strings (Errorf_merging head ref err) = head # ref # error_strings err"
| "error_strings (Errorf_get_contents_in path ref err) = path # ref # error_strings err"
| "error_strings (Errorf_get_contents_of path err) = path # error_strings err"
| "error_strings (Errorf_decoding path err) = path # error_strings err"

definition error_names :: "string \<Rightarrow> error \<Rightarrow> bool" where
  "error_names path err = (\<exists>s \<in> set (error_strings err). sublist path s)"

text \<open>
  What the specification asks of the release listed for a commit of the log: its
  application is decoded by a fetcher bound to the SHA of the commit, from an
  application that has the name only; its description is the message of the commit and
  its time of creation the date of the committer.
\<close>

definition reconstructs ::
  "('env, 'img, 'form) codecs \<Rightarrow> Storage \<Rightarrow> string \<Rightarrow> RepositoryCommit \<Rightarrow>
     ('env, 'img, 'form) Release \<Rightarrow> bool" where
  "reconstructs c s name commit release =
     (\<exists>sha gitCommit message committer.
        SHA commit = Some sha \<and>
        loadApp c (GetContentsAtRef s sha) (named name) = Inr (App release) \<and>
        repository_Commit commit = Some gitCommit \<and>
        Message gitCommit = Some message \<and> Description release = message \<and>
        Committer gitCommit = Some committer \<and> CreatedAt release = Date committer)"

subsection \<open>Stand-ins for the examples\<close>

text \<open>
  The theorems below hold for every client and for all codecs. The stand-ins of this
  section give them concrete inputs to be run on: a repository with two releases of an
  application \<^verbatim>\<open>web\<close>, and codecs for an environment kept as a list of pairs, an image
  kept as its reference and a formation kept as its JSON text.
\<close>

definition env_line :: "string \<times> string \<Rightarrow> string" where
  "env_line kv = fst kv @ ''='' @ snd kv @ [CHR 0x0A]"

definition example_dotenv_Write :: "(string \<times> string) list \<Rightarrow> string + string" where
  \<comment> \<open>Modelled from the spec: the package \<^verbatim>\<open>dotenv\<close> is not among the files at hand. The
     spec gives one \<^verbatim>\<open>KEY=VALUE\<close> line per entry and says that values requiring escaping
     are quoted, without giving the quoting; the stand-in writes the lines of values
     that need none and is used on such values only.\<close>
  "example_dotenv_Write env = Inr (concat (map env_line env))"

fun lines_of :: "string \<Rightarrow> string \<Rightarrow> string list" where
  \<comment> \<open>the lines of a text, each ended by a line feed; the first argument is the line begun\<close>
  "lines_of line [] = (if line = [] then [] else [line])"
| "lines_of line (c # cs) = (if c = CHR 0x0A then line # lines_of [] cs else lines_of (line @ [c]) cs)"

definition parse_env_line :: "string \<Rightarrow> string \<times> string" where
  "parse_env_line l = (takeWhile (\<lambda>c. c \<noteq> CHR ''='') l, drop 1 (dropWhile (\<lambda>c. c \<noteq> CHR ''='') l))"

definition example_dotenv_Read :: "string \<Rightarrow> string + (string \<times> string) list option" where
  \<comment> \<open>Modelled from the spec: the package \<^verbatim>\<open>dotenv\<close> is not among the files at hand; the
     stand-in reads back the \<^verbatim>\<open>KEY=VALUE\<close> lines that \<open>example_dotenv_Write\<close> writes.\<close>
  "example_dotenv_Read raw = Inr (Some (map parse_env_line (lines_of [] raw)))"

definition example_json_Unmarshal :: "string \<Rightarrow> string option \<Rightarrow> string + string option" where
  \<comment> \<open>\<^verbatim>\<open>encoding/json\<close> on the three documents of the examples: an object, \<^verbatim>\<open>null\<close>
     (which leaves the formation as it is) and the truncated document \<^verbatim>\<open>{\<close>\<close>
  "example_json_Unmarshal raw v =
     (if raw = ''{}'' then Inr (Some raw)
      else if raw = ''null'' then Inr v
      else Inl ''unexpected end of JSON input'')"

definition example_codecs :: "((string \<times> string) list, string, string) codecs" where
  "example_codecs =
     \<lparr>dotenv_Write = example_dotenv_Write,
      dotenv_Read = example_dotenv_Read,
      image_String = (\<lambda>img. img),
      image_Decode = (\<lambda>raw. if raw = [] then Inl ''invalid image'' else Inr raw),
      json_MarshalIndent = (\<lambda>v prefix indent. Inr v),
      json_Unmarshal = example_json_Unmarshal\<rparr>"

definition failing_codecs :: "((string \<times> string) list, string, string) codecs" where
  \<comment> \<open>codecs whose \<^verbatim>\<open>dotenv.Write\<close> reports a serialization error\<close>
  "failing_codecs = example_codecs\<lparr>dotenv_Write := (\<lambda>env. Inl ''malformed environment value'')\<rparr>"

definition file_of :: "string \<Rightarrow> RepositoryContent" where
  "file_of raw = \<lparr>content_Type = Some ''file'', content_Name = None, Decode = Inr raw\<rparr>"

definition entry_of :: "string \<Rightarrow> string \<Rightarrow> RepositoryContent" where
  "entry_of t name = \<lparr>content_Type = Some t, content_Name = Some name, Decode = Inl ''cannot decode''\<rparr>"

definition serve :: "(string \<times> string) list \<Rightarrow> contentFetcher" where
  \<comment> \<open>a fetcher that serves the files of a table from paths to contents\<close>
  "serve files elem =
     (case elem of
        [path] \<Rightarrow>
          (case map_of files path of
             None \<Rightarrow> Inl ''404 Not Found''
           | Some raw \<Rightarrow> Inr (Some (file_of raw), []))
      | _ \<Rightarrow> Inl ''404 Not Found'')"

definition example_files :: "string \<Rightarrow> (string \<times> string) list" where
  \<comment> \<open>the files of the repository at a commit, by the paths the client is asked for\<close>
  "example_files ref =
     [(''base/web%2FVERSION'', if ref = ''c1'' then ''v1'' else ''v2''),
      (''base/web%2Fservices.json'', ''{}''),
      (''base/web%2Fimage.txt'', ''nginx''),
      (''base/web%2Fapp.env'', ''FOO=bar'' @ [CHR 0x0A])]"

definition example_commit :: "string \<Rightarrow> string \<Rightarrow> time \<Rightarrow> RepositoryCommit" where
  "example_commit sha message date =
     \<lparr>SHA = Some sha,
      repository_Commit = Some (Commit (Some sha) (Some message) None [] (Some \<lparr>Date = Some date\<rparr>))\<rparr>"

definition example_client :: github_client where
  "example_client =
     \<lparr>Git_GetRef = (\<lambda>owner repo ref. Inr \<lparr>Object = Some \<lparr>object_SHA = Some ''c2''\<rparr>\<rparr>),
      Git_GetCommit = (\<lambda>owner repo sha.
         Inr (Commit (Some sha) (Some ''second'') (Some \<lparr>tree_SHA = Some ''t2''\<rparr>) [] None)),
      Git_CreateTree = (\<lambda>owner repo base entries. Inr \<lparr>tree_SHA = Some ''t3''\<rparr>),
      Git_CreateCommit = (\<lambda>owner repo commit.
         Inr (Commit (Some ''c3'') (Message commit) (commit_Tree commit) (Parents commit) None)),
      Repositories_Merge = (\<lambda>owner repo base head. Inr ()),
      Repositories_ListCommits = (\<lambda>owner repo sha path.
         Inr [example_commit ''c2'' ''second'' 200, example_commit ''c1'' ''first'' 100]),
      Repositories_GetContents = (\<lambda>owner repo path ref.
         if path = ''base''
         then Inr (None, [Some (entry_of ''file'' ''README.md''), Some (entry_of ''dir'' ''web''),
                          Some (entry_of ''dir'' ''api'')])
         else (case map_of (example_files ref) path of
                 None \<Rightarrow> Inl ''404 Not Found''
               | Some raw \<Rightarrow> Inr (Some (file_of raw), [])))\<rparr>"

definition example_storage :: Storage where
  "example_storage =
     \<lparr>Owner = ''remind101'', Repo = ''config'', BasePath = ''base'', Ref = ''refs/heads/master'',
      github = example_client\<rparr>"

definition web :: "go_int \<Rightarrow> 'env option \<Rightarrow> ('env, 'img, 'form) App" where
  \<comment> \<open>the application \<^verbatim>\<open>web\<close> of the specification's scenario: no image, no formation\<close>
  "web v env = \<lparr>Name = ''web'', Version = v, Environment = env, Image = None, Formation = None\<rparr>"

definition example_app :: "((string \<times> string) list, string, string) App" where
  "example_app =
     \<lparr>Name = ''web'', Version = 41, Environment = Some [(''FOO'', ''bar'')], Image = Some ''nginx'',
      Formation = Some ''{}''\<rparr>"

section \<open>Properties\<close>

subsection \<open>Escaping and joining\<close>

lemma of_char_lt: "(of_char c :: nat) < 256"
  by (metis of_char_mod_256 mod_less_divisor zero_less_numeral)

lemma hex_no_slash: "k < 16 \<Longrightarrow> upperhex ! k \<noteq> CHR ''/''"
proof -
  assume "k < 16"
  then have "upperhex ! k \<in> set upperhex" by (intro nth_mem) (simp add: upperhex_def)
  moreover have "CHR ''/'' \<notin> set upperhex" by (simp add: upperhex_def)
  ultimately show ?thesis by metis
qed

lemma escape_byte_no_slash: "CHR ''/'' \<notin> set (escape_byte c)"
proof -
  have d: "(of_char c :: nat) div 16 < 16" using of_char_lt[of c] by arith
  have m: "(of_char c :: nat) mod 16 < 16" by simp
  have s: "shouldEscape (CHR ''/'')" by (simp add: shouldEscape_def is_letter_def is_digit_def)
  show ?thesis
    using hex_no_slash[OF d] hex_no_slash[OF m] s
    by (auto simp: escape_byte_def)
qed

lemma QueryEscape_no_slash: "CHR ''/'' \<notin> set (QueryEscape e)"
  by (simp add: QueryEscape_def escape_byte_no_slash)

lemma strings_Join_Cons: "strings_Join (x # xs) sep = x @ concat (map (\<lambda>e. sep @ e) xs)"
  by (induction xs arbitrary: x) auto

lemma PathJoin_structure:
  "PathJoin basepath elem = basepath @ concat (map (\<lambda>e. ''/'' @ QueryEscape e) elem)"
  by (simp add: PathJoin_def strings_Join_Cons DirectorySeparator_def comp_def)

lemma QueryEscape_dots: "QueryEscape ''..'' = ''..''"
  by (simp add: QueryEscape_def escape_byte_def shouldEscape_def is_letter_def is_digit_def)

lemma split_path_no_slash: "CHR ''/'' \<notin> set xs \<Longrightarrow> split_path seg (xs @ rest) = split_path (seg @ xs) rest"
  by (induction xs arbitrary: seg) auto

lemma split_path_joined:
  "split_path seg (concat (map (\<lambda>e. CHR ''/'' # QueryEscape e) elem)) = seg # map QueryEscape elem"
proof (induction elem arbitrary: seg)
  case Nil
  then show ?case by simp
next
  case (Cons e elem)
  have "split_path [] (QueryEscape e @ concat (map (\<lambda>e. ''/'' @ QueryEscape e) elem))
        = split_path (QueryEscape e) (concat (map (\<lambda>e. ''/'' @ QueryEscape e) elem))"
    using split_path_no_slash[OF QueryEscape_no_slash, of "[]" e] by simp
  then show ?case using Cons.IH by simp
qed

lemma stays_within_no_dot_dot: "''..'' \<notin> set segs \<Longrightarrow> stays_within depth segs"
  by (induction segs arbitrary: depth) auto

lemma PathJoin_under_without_dot_dot:
  assumes "''..'' \<notin> set (map QueryEscape elem)"
  shows "lexically_under basepath (PathJoin basepath elem)"
proof (cases elem)
  case Nil
  then show ?thesis by (simp add: lexically_under_def PathJoin_structure)
next
  case (Cons e es)
  have "drop (length basepath + 1) (PathJoin basepath elem)
        = QueryEscape e @ concat (map (\<lambda>e. ''/'' @ QueryEscape e) es)"
    using Cons by (simp add: PathJoin_structure)
  then have "split_path [] (drop (length basepath + 1) (PathJoin basepath elem))
        = map QueryEscape elem"
    using split_path_no_slash[OF QueryEscape_no_slash, of "[]" e] Cons
    by (simp add: split_path_joined)
  moreover have "prefix (basepath @ ''/'') (PathJoin basepath elem)"
    using Cons by (simp add: PathJoin_structure)
  ultimately show ?thesis
    using assms stays_within_no_dot_dot by (simp add: lexically_under_def)
qed

lemma PathJoin_escapes_separators:
  "PathJoin ''base'' [''a/../../etc''] = ''base/a%2F..%2F..%2Fetc'' \<and>
   lexically_under ''base'' (PathJoin ''base'' [''a/../../etc''])"
  by (simp add: PathJoin_structure lexically_under_def
      QueryEscape_def escape_byte_def shouldEscape_def is_letter_def is_digit_def upperhex_def)

text \<open>
  Claim C4. \<^verbatim>\<open>PathJoin\<close> escapes each component by itself and puts one separator in front
  of each (\<open>PathJoin_structure\<close>), and no escaped component holds a separator
  (\<open>QueryEscape_no_slash\<close>). The escaping leaves the dots of a component alone, though:
  a component \<^verbatim>\<open>..\<close> comes out as the segment \<^verbatim>\<open>..\<close>, and the joined path climbs out
  of the base path, against the comment of \<^verbatim>\<open>PathJoin\<close> that the path returned is always
  under the base path. Without such a component the path stays under the base path
  (\<open>PathJoin_under_without_dot_dot\<close>).
\<close>

theorem PathJoin_dot_dot_leaves_basepath:
  "PathJoin ''base'' [''..''] = ''base/..'' \<and>
   \<not> lexically_under ''base'' (PathJoin ''base'' [''..'']) \<and>
   PathJoin ''base'' [''..'', ''..'', ''etc''] = ''base/../../etc'' \<and>
   \<not> lexically_under ''base'' (PathJoin ''base'' [''..'', ''..'', ''etc''])"
  by (simp add: PathJoin_structure QueryEscape_dots lexically_under_def
      QueryEscape_def escape_byte_def shouldEscape_def is_letter_def is_digit_def)

subsection \<open>Printing and reading an integer\<close>

lemma is_digit_digit_char: "d < 10 \<Longrightarrow> is_digit (digit_char d)"
  by (simp add: is_digit_def digit_char_def)

lemma digit_char_val: "d < 10 \<Longrightarrow> (of_char (digit_char d) :: nat) - 48 = d"
  by (simp add: digit_char_def)

lemma digits_not_Nil: "digits n \<noteq> []"
  by (subst digits.simps) simp

lemma digits_all: "c \<in> set (digits n) \<Longrightarrow> is_digit c"
proof (induction n arbitrary: c rule: digits.induct)
  case (1 n)
  show ?case
  proof (cases "n < 10")
    case True
    with "1.prems" show ?thesis
      by (subst (asm) digits.simps) (simp add: is_digit_digit_char)
  next
    case False
    have "c \<in> set (digits (n div 10)) \<or> c = digit_char (n mod 10)"
      using "1.prems" False by (subst (asm) digits.simps) auto
    then show ?thesis
      using "1.IH"[OF False] by (auto simp: is_digit_digit_char)
  qed
qed

lemma ParseUint_append:
  "ParseUint a (xs @ ys) = (case ParseUint a xs of Inl e \<Rightarrow> Inl e | Inr b \<Rightarrow> ParseUint b ys)"
  by (induction xs arbitrary: a) auto

lemma ParseUint_digits: "n < 2 ^ 64 \<Longrightarrow> ParseUint 0 (digits n) = Inr n"
proof (induction n rule: digits.induct)
  case (1 n)
  show ?case
  proof (cases "n < 10")
    case True
    then show ?thesis
      using "1.prems" by (subst digits.simps) (simp add: is_digit_digit_char digit_char_val)
  next
    case False
    have "n div 10 < 2 ^ 64" using "1.prems" by simp
    then have ih: "ParseUint 0 (digits (n div 10)) = Inr (n div 10)"
      using "1.IH"[OF False] by simp
    have m: "n mod 10 < 10" by simp
    have "digits n = digits (n div 10) @ [digit_char (n mod 10)]"
      using False by (subst digits.simps) simp
    then show ?thesis
      using "1.prems" by (simp add: ParseUint_append ih is_digit_digit_char[OF m] digit_char_val[OF m])
  qed
qed

lemma digits_hd: "\<exists>c cs. digits n = c # cs \<and> is_digit c"
proof -
  obtain c cs where e: "digits n = c # cs" using digits_not_Nil[of n] by (cases "digits n") auto
  then have "c \<in> set (digits n)" by simp
  then show ?thesis using e digits_all by blast
qed

lemma digits_snoc: "\<exists>xs d. digits n = xs @ [d] \<and> is_digit d"
proof -
  obtain xs d where e: "digits n = xs @ [d]"
    using digits_not_Nil[of n] by (cases "digits n" rule: rev_cases) auto
  then have "d \<in> set (digits n)" by simp
  then show ?thesis using e digits_all by blast
qed

lemma ParseInt_FormatInt:
  assumes "- (2 ^ 63) \<le> i" "i < 2 ^ 63"
  shows "ParseInt (FormatInt i) = Inr (word_of_int i)"
proof (cases "i < 0")
  case True
  have un: "nat (- i) < 2 ^ 64" using assms by simp
  have le: "\<not> (2 :: nat) ^ 63 < nat (- i)" using assms by simp
  have "- (word_of_nat (nat (- i)) :: go_int) = word_of_int i"
    using True by simp
  then show ?thesis
    using True le by (simp add: ParseInt_def FormatInt_def digits_not_Nil ParseUint_digits[OF un])
next
  case False
  obtain c cs where e: "digits (nat i) = c # cs" and d: "is_digit c" using digits_hd by blast
  have ne: "c \<noteq> CHR ''+''" "c \<noteq> CHR ''-''" using d by (auto simp: is_digit_def)
  have un: "nat i < 2 ^ 64" using assms by simp
  have le: "\<not> (2 :: nat) ^ 63 \<le> nat i" using assms False by simp
  have p: "ParseUint 0 (c # cs) = Inr (nat i)" using ParseUint_digits[OF un] e by simp
  have "(word_of_nat (nat i) :: go_int) = word_of_int i" using False by simp
  then show ?thesis
    using False le ne p by (simp add: ParseInt_def FormatInt_def e del: ParseUint.simps)
qed

lemma Atoi_Sprintf_d: "Atoi (Sprintf_d v) = Inr v"
proof -
  have "- (2 ^ 63) \<le> sint v" "sint v < 2 ^ 63"
    using sint_ge[of v] sint_lt[of v] by simp_all
  then show ?thesis
    by (simp add: Atoi_def Sprintf_d_def ParseInt_FormatInt)
qed

subsection \<open>Trimming\<close>

lemma rune_width_none: "(\<And>r. r \<in> set runes \<Longrightarrow> \<not> prefix r s) \<Longrightarrow> rune_width runes s = 0"
  by (simp add: rune_width_def find_None_iff2[THEN iffD2] split: option.splits)
     (metis find_Some_iff nth_mem)

lemma space_rune_first: "r \<in> set space_runes \<Longrightarrow> \<exists>b bs. r = b # bs \<and> \<not> printable b"
  unfolding space_runes_def printable_def by (elim set_ConsD[THEN disjE]) simp_all

lemma space_rune_last: "r \<in> set (map rev space_runes) \<Longrightarrow> \<exists>b bs. r = b # bs \<and> \<not> printable b"
  unfolding space_runes_def printable_def list.map by (elim set_ConsD[THEN disjE]) simp_all

lemma rune_width_printable: "printable c \<Longrightarrow> rune_width space_runes (c # s) = 0"
  by (rule rune_width_none) (use space_rune_first in fastforce)

lemma rune_width_rev_printable: "printable c \<Longrightarrow> rune_width (map rev space_runes) (c # s) = 0"
  by (rule rune_width_none) (use space_rune_last in fastforce)

lemma trim_front_id: "rune_width runes s = 0 \<Longrightarrow> trim_front runes s = s"
  by (subst trim_front.simps) simp

lemma TrimSpace_id:
  assumes "printable c" "printable d"
  shows "TrimSpace (c # xs @ [d]) = c # xs @ [d]"
proof -
  have "trim_front space_runes (c # xs @ [d]) = c # xs @ [d]"
    using assms(1) by (simp add: trim_front_id rune_width_printable)
  moreover have "trim_front (map rev space_runes) (d # rev xs @ [c]) = d # rev xs @ [c]"
    using assms(2) by (simp add: trim_front_id rune_width_rev_printable)
  ultimately show ?thesis by (simp add: TrimSpace_def)
qed

lemma is_digit_printable: "is_digit c \<Longrightarrow> printable c"
  by (simp add: is_digit_def printable_def)

lemma Sprintf_d_snoc: "\<exists>xs d. Sprintf_d v = xs @ [d] \<and> is_digit d"
proof (cases "sint v < 0")
  case True
  obtain xs d where "digits (nat (- sint v)) = xs @ [d]" "is_digit d" using digits_snoc by blast
  then have "Sprintf_d v = (CHR ''-'' # xs) @ [d]" using True by (simp add: Sprintf_d_def FormatInt_def)
  then show ?thesis using \<open>is_digit d\<close> by blast
next
  case False
  then show ?thesis using digits_snoc by (simp add: Sprintf_d_def FormatInt_def)
qed

lemma TrimSpace_version: "TrimSpace (''v'' @ Sprintf_d v) = CHR ''v'' # Sprintf_d v"
proof -
  obtain xs d where e: "Sprintf_d v = xs @ [d]" and d: "is_digit d" using Sprintf_d_snoc by blast
  have "printable (CHR ''v'')" by (simp add: printable_def)
  then show ?thesis using TrimSpace_id[of "CHR ''v''" d xs] d e by (simp add: is_digit_printable)
qed

lemma TrimSpace_blank: "TrimSpace [CHR 0x20, CHR 0x0A] = []"
  by (simp add: TrimSpace_def trim_front.simps rune_width_def space_runes_def)

subsection \<open>Reading files\<close>

lemma fileContent_no_slice_panic: "fileContent f p \<noteq> Inl (Panic SliceBounds)"
  by (auto simp: fileContent_def split: sum.splits option.splits prod.splits)

lemma decodeFile_no_slice_panic: "decodeFile c f p v \<noteq> Inl (Panic SliceBounds)"
  using fileContent_no_slice_panic[of f p] by (auto simp: decodeFile_def split: sum.splits)

lemma fileContent_serve:
  "fileContent (serve files) p =
     (case map_of files p of
        None \<Rightarrow> Inl (Error (Errorf_get_contents_of p (GitHubError ''404 Not Found'')))
      | Some raw \<Rightarrow> Inr raw)"
  by (simp add: fileContent_def serve_def file_of_def split: option.splits)

lemma PathJoin_web_VERSION: "PathJoin ''web'' [FileVersion] = ''web/VERSION''"
  by (simp add: PathJoin_def QueryEscape_def escape_byte_def shouldEscape_def is_letter_def
      is_digit_def DirectorySeparator_def FileVersion_def)

subsection \<open>The version file\<close>

text \<open>
  Claim C10. \<^verbatim>\<open>loadApp\<close> takes the substring after the first byte of the trimmed content
  of the \<^verbatim>\<open>VERSION\<close> file without testing that there is a first byte. It panics with a
  slice index out of range exactly when the file is there and its content trims to the
  empty string: it returns no decode error then, and the substring is total only on a
  content that does not trim to nothing.
\<close>

theorem loadApp_panics_on_empty_version:
  "(loadApp c f app = Inl (Panic SliceBounds)) =
     (\<exists>version. fileContent f (PathJoin (Name app) [FileVersion]) = Inr version \<and>
        TrimSpace version = [])"
proof (cases "fileContent f (PathJoin (Name app) [FileVersion])")
  case (Inl e)
  then show ?thesis
    using fileContent_no_slice_panic[of f "PathJoin (Name app) [FileVersion]"]
    by (simp add: loadApp_def)
next
  case (Inr version)
  show ?thesis
  proof (cases "TrimSpace version")
    case Nil
    then show ?thesis using Inr by (simp add: loadApp_def)
  next
    case (Cons first rest)
    have "loadApp c f app \<noteq> Inl (Panic SliceBounds)"
      using Inr Cons
      using fileContent_no_slice_panic[of f] decodeFile_no_slice_panic[of c f]
      by (auto simp: loadApp_def Let_def split: sum.splits)
    then show ?thesis using Inr Cons by simp
  qed
qed

theorem loadApp_panics_on_empty_version_witness:
  "loadApp example_codecs (serve [(''web/VERSION'', [CHR 0x20, CHR 0x0A])]) (named ''web'')
     = Inl (Panic SliceBounds)"
proof -
  have "fileContent (serve [(''web/VERSION'', [CHR 0x20, CHR 0x0A])])
          (PathJoin (Name (named ''web'' :: ((string \<times> string) list, string, string) App)) [FileVersion])
        = Inr [CHR 0x20, CHR 0x0A]"
    by (simp add: named_def PathJoin_web_VERSION fileContent_serve)
  then show ?thesis
    using loadApp_panics_on_empty_version[of example_codecs
        "serve [(''web/VERSION'', [CHR 0x20, CHR 0x0A])]" "named ''web''"] TrimSpace_blank
    by blast
qed

subsection \<open>The tree entries\<close>

lemma QueryEscape_files:
  "QueryEscape FileVersion = ''VERSION''" "QueryEscape FileEnv = ''app.env''"
  "QueryEscape FileImage = ''image.txt''" "QueryEscape FileServices = ''services.json''"
  by (simp_all add: QueryEscape_def escape_byte_def shouldEscape_def is_letter_def is_digit_def
      FileVersion_def FileEnv_def FileImage_def FileServices_def)

lemma QueryEscape_web: "QueryEscape ''web'' = ''web''"
  by (simp add: QueryEscape_def escape_byte_def shouldEscape_def is_letter_def is_digit_def)

lemma Storage_Path_file:
  "Storage_Path s [name, file] = BasePath s @ ''/'' @ QueryEscape name @ ''/'' @ QueryEscape file"
  by (simp add: Storage_Path_def PathJoin_structure)

lemma Sprintf_d_chars: "ch \<in> set (Sprintf_d v) \<Longrightarrow> is_digit ch \<or> ch = CHR ''-''"
  using digits_all by (auto simp: Sprintf_d_def FormatInt_def split: if_splits)

lemma digit_char_simps:
  "digit_char 0 = CHR ''0''" "digit_char 1 = CHR ''1''" "digit_char 2 = CHR ''2''"
  "digit_char 3 = CHR ''3''" "digit_char 4 = CHR ''4''" "digit_char 5 = CHR ''5''"
  "digit_char 6 = CHR ''6''" "digit_char 7 = CHR ''7''" "digit_char 8 = CHR ''8''"
  "digit_char 9 = CHR ''9''" "digit_char (Suc 0) = CHR ''1''"
  by code_simp+

lemma Sprintf_d_1: "Sprintf_d 1 = ''1''"
  by (simp add: Sprintf_d_def FormatInt_def digits.simps digit_char_simps)

lemma treeEntries_paths:
  assumes "treeEntries c s app = Inr entries"
  shows "filter (\<lambda>e. Path e = Storage_Path s [Name app, FileVersion]) entries =
           [blob (Storage_Path s [Name app, FileVersion]) (''v'' @ Sprintf_d (Version app))]"
    and "(\<exists>e \<in> set entries. Path e = Storage_Path s [Name app, FileEnv]) = (Environment app \<noteq> None)"
    and "(\<exists>e \<in> set entries. Path e = Storage_Path s [Name app, FileImage]) = (Image app \<noteq> None)"
    and "(\<exists>e \<in> set entries. Path e = Storage_Path s [Name app, FileServices]) = (Formation app \<noteq> None)"
    and "length entries = 1 + (if Environment app = None then 0 else 1) + (if Image app = None then 0 else 1)
           + (if Formation app = None then 0 else 1)"
  using assms
  by (auto simp: treeEntries_def Let_def blob_def Storage_Path_file QueryEscape_files
      split: option.splits sum.splits)

lemma ReleasesCreate_app:
  "fst (snd (ReleasesCreate c s app0 d)) = app0\<lparr>Version := Version app0 + 1\<rparr>"
  by (simp add: ReleasesCreate_def Let_def split: sum.splits option.splits)

lemma ReleasesCreate_CreateTree:
  "Call_CreateTree owner repo base entries \<in> set (snd (snd (ReleasesCreate c s app0 d))) \<Longrightarrow>
     treeEntries c s (app0\<lparr>Version := Version app0 + 1\<rparr>) = Inr entries"
  by (auto simp: ReleasesCreate_def Let_def split: sum.splits option.splits)

lemma treeEntries_web:
  assumes "BasePath s = ''base''" "dotenv_Write c env = Inr envFile"
  shows "treeEntries c s (web 1 (Some env)) =
     Inr [blob ''base/web/VERSION'' ''v1'', blob ''base/web/app.env'' envFile]"
  using assms
  by (simp add: treeEntries_def web_def Storage_Path_file QueryEscape_files QueryEscape_web Sprintf_d_1)

lemma treeEntries_fails_iff:
  "(\<exists>err. treeEntries c s app = Inl err) =
     ((\<exists>environment msg. Environment app = Some environment \<and>
         dotenv_Write c environment = Inl msg) \<or>
      (\<exists>formation msg. Formation app = Some formation \<and> jsonMarshal c formation = Inl msg))"
  by (auto simp: treeEntries_def Let_def split: option.splits sum.splits)

text \<open>
  Claim C1. \<^verbatim>\<open>treeEntries\<close> returns entries unless \<^verbatim>\<open>dotenv.Write\<close> fails on the
  environment or \<^verbatim>\<open>jsonMarshal\<close> on the formation. Of the entries it returns, exactly
  one is the \<^verbatim>\<open>VERSION\<close> file, and its content is the letter \<^verbatim>\<open>v\<close> followed by
  the decimal version: digits after at most a minus sign, which \<^verbatim>\<open>strconv.Atoi\<close> reads
  back as the version. There is an \<^verbatim>\<open>app.env\<close> entry exactly when the environment is
  not \<^verbatim>\<open>nil\<close>, an \<^verbatim>\<open>image.txt\<close> entry exactly when the image is not \<^verbatim>\<open>nil\<close>, a
  \<^verbatim>\<open>services.json\<close> entry exactly when the formation is not \<^verbatim>\<open>nil\<close>, and there is
  no other entry.

  The scenario: the application \<^verbatim>\<open>web\<close> at version 0 with an environment that
  \<^verbatim>\<open>dotenv.Write\<close> serialises as \<^verbatim>\<open>FOO=bar\<close> and a line feed, no image and no formation,
  under the base path \<^verbatim>\<open>base\<close>. \<^verbatim>\<open>ReleasesCreate\<close> leaves it at version 1 and builds
  the two entries \<^verbatim>\<open>base/web/VERSION\<close> with \<^verbatim>\<open>v1\<close> and \<^verbatim>\<open>base/web/app.env\<close>; a tree
  it asks the client to create has exactly these.
\<close>

theorem treeEntries_files:
  "(treeEntries (c :: ('env, 'img, 'form) codecs) s app = Inr entries \<longrightarrow>
      filter (\<lambda>e. Path e = Storage_Path s [Name app, FileVersion]) entries =
        [blob (Storage_Path s [Name app, FileVersion]) (''v'' @ Sprintf_d (Version app))] \<and>
      (\<forall>ch \<in> set (Sprintf_d (Version app)). is_digit ch \<or> ch = CHR ''-'') \<and>
      Atoi (Sprintf_d (Version app)) = Inr (Version app) \<and>
      (\<exists>e \<in> set entries. Path e = Storage_Path s [Name app, FileEnv]) = (Environment app \<noteq> None) \<and>
      (\<exists>e \<in> set entries. Path e = Storage_Path s [Name app, FileImage]) = (Image app \<noteq> None) \<and>
      (\<exists>e \<in> set entries. Path e = Storage_Path s [Name app, FileServices]) = (Formation app \<noteq> None) \<and>
      length entries = 1 + (if Environment app = None then 0 else 1)
        + (if Image app = None then 0 else 1) + (if Formation app = None then 0 else 1)) \<and>
   (BasePath s = ''base'' \<and> dotenv_Write c env = Inr (''FOO=bar\<newline>'') \<and>
      ReleasesCreate c s (web 0 (Some env)) description = (result, app', sent) \<longrightarrow>
      app' = web 1 (Some env) \<and>
      treeEntries c s app' =
        Inr [blob ''base/web/VERSION'' ''v1'', blob ''base/web/app.env'' (''FOO=bar\<newline>'')] \<and>
      (\<forall>owner repo base sent_entries. Call_CreateTree owner repo base sent_entries \<in> set sent \<longrightarrow>
         sent_entries =
           [blob ''base/web/VERSION'' ''v1'', blob ''base/web/app.env'' (''FOO=bar\<newline>'')])) \<and>
   ((\<exists>err. treeEntries c s app = Inl err) =
      ((\<exists>environment msg. Environment app = Some environment \<and>
          dotenv_Write c environment = Inl msg) \<or>
       (\<exists>formation msg. Formation app = Some formation \<and> jsonMarshal c formation = Inl msg)))"
proof (intro conjI impI)
  assume a: "BasePath s = ''base'' \<and> dotenv_Write c env = Inr (''FOO=bar\<newline>'') \<and>
      ReleasesCreate c s (web 0 (Some env)) description = (result, app', sent)"
  have app': "app' = web 1 (Some env)"
    using a ReleasesCreate_app[of c s "web 0 (Some env)" description] by (simp add: web_def)
  then show "app' = web 1 (Some env)" .
  show t: "treeEntries c s app' =
        Inr [blob ''base/web/VERSION'' ''v1'', blob ''base/web/app.env'' (''FOO=bar\<newline>'')]"
    using a app' treeEntries_web[of s c env] by simp
  show "\<forall>owner repo base sent_entries. Call_CreateTree owner repo base sent_entries \<in> set sent \<longrightarrow>
         sent_entries =
           [blob ''base/web/VERSION'' ''v1'', blob ''base/web/app.env'' (''FOO=bar\<newline>'')]"
  proof (intro allI impI)
    fix owner repo base sent_entries
    assume "Call_CreateTree owner repo base sent_entries \<in> set sent"
    then have "treeEntries c s
        ((web 0 (Some env) :: ('env, 'img, 'form) App)\<lparr>Version := Version (web 0 (Some env) :: ('env, 'img, 'form) App) + 1\<rparr>)
        = Inr sent_entries"
      using a ReleasesCreate_CreateTree[of owner repo base sent_entries c s "web 0 (Some env)" description]
      by simp
    moreover have "(web 0 (Some env) :: ('env, 'img, 'form) App)\<lparr>Version := Version (web 0 (Some env) :: ('env, 'img, 'form) App) + 1\<rparr> = app'"
      using app' by (simp add: web_def)
    ultimately show "sent_entries =
           [blob ''base/web/VERSION'' ''v1'', blob ''base/web/app.env'' (''FOO=bar\<newline>'')]"
      using t by simp
  qed
qed (simp_all add: treeEntries_paths Atoi_Sprintf_d Sprintf_d_chars treeEntries_fails_iff)

lemma example_dotenv_Write_FOO:
  "dotenv_Write example_codecs [(''FOO'', ''bar'')] = Inr ''FOO=bar\<newline>''"
  by (simp add: example_codecs_def example_dotenv_Write_def env_line_def)

lemma ReleasesCreate_example:
  "ReleasesCreate example_codecs example_storage (web 0 (Some [(''FOO'', ''bar'')])) ''first release'' =
     (Inr \<lparr>App = web 1 (Some [(''FOO'', ''bar'')]), Description = ''first release'', CreatedAt = None\<rparr>,
      web 1 (Some [(''FOO'', ''bar'')]),
      [Call_GetRef ''remind101'' ''config'' ''refs/heads/master'',
       Call_GetCommit ''remind101'' ''config'' ''c2'',
       Call_CreateTree ''remind101'' ''config'' ''t2''
         [blob ''base/web/VERSION'' ''v1'', blob ''base/web/app.env'' ''FOO=bar\<newline>''],
       Call_CreateCommit ''remind101'' ''config''
         (Commit None (Some ''first release'') (Some \<lparr>tree_SHA = Some ''t3''\<rparr>)
            [Commit (Some ''c2'') (Some ''second'') (Some \<lparr>tree_SHA = Some ''t2''\<rparr>) [] None] None),
       Call_Merge ''remind101'' ''config'' (Some ''refs/heads/master'') (Some ''c3'')])"
proof -
  have w: "(web 0 (Some [(''FOO'', ''bar'')]) :: ((string \<times> string) list, string, string) App)
             \<lparr>Version := Version (web 0 (Some [(''FOO'', ''bar'')]) :: ((string \<times> string) list, string, string) App) + 1\<rparr>
           = web 1 (Some [(''FOO'', ''bar'')])"
    by (simp add: web_def)
  have t: "treeEntries example_codecs example_storage (web 1 (Some [(''FOO'', ''bar'')])) =
     Inr [blob ''base/web/VERSION'' ''v1'', blob ''base/web/app.env'' ''FOO=bar\<newline>'']"
    by (rule treeEntries_web) (simp_all add: example_storage_def example_dotenv_Write_FOO)
  show ?thesis
    unfolding ReleasesCreate_def w Let_def t
    by (simp add: example_storage_def example_client_def)
qed

theorem treeEntries_files_witness:
  "treeEntries example_codecs example_storage (web 1 (Some [(''FOO'', ''bar'')])) =
     Inr [blob ''base/web/VERSION'' ''v1'', blob ''base/web/app.env'' ''FOO=bar\<newline>''] \<and>
   Atoi ''1'' = Inr 1 \<and>
   \<not> (\<exists>e \<in> set [blob ''base/web/VERSION'' ''v1'', blob ''base/web/app.env'' ''FOO=bar\<newline>''].
        Path e = Storage_Path example_storage [''web'', FileImage]) \<and>
   \<not> (\<exists>e \<in> set [blob ''base/web/VERSION'' ''v1'', blob ''base/web/app.env'' ''FOO=bar\<newline>''].
        Path e = Storage_Path example_storage [''web'', FileServices]) \<and>
   (\<exists>e \<in> set [blob ''base/web/VERSION'' ''v1'', blob ''base/web/app.env'' ''FOO=bar\<newline>''].
        Path e = Storage_Path example_storage [''web'', FileEnv])"
proof -
  let ?app = "web 1 (Some [(''FOO'', ''bar'')]) :: ((string \<times> string) list, string, string) App"
  let ?run = "ReleasesCreate example_codecs example_storage (web 0 (Some [(''FOO'', ''bar'')])) ''first release''"
  let ?entries = "[blob ''base/web/VERSION'' ''v1'', blob ''base/web/app.env'' ''FOO=bar\<newline>'']"
  have b: "BasePath example_storage = ''base''" by (simp add: example_storage_def)
  have r: "?run = (fst ?run, fst (snd ?run), snd (snd ?run))" by simp
  have t: "treeEntries example_codecs example_storage ?app = Inr ?entries"
    using treeEntries_files[of example_codecs example_storage ?app ?entries "[(''FOO'', ''bar'')]"
        "''first release''" "fst ?run" "fst (snd ?run)" "snd (snd ?run)"]
      b example_dotenv_Write_FOO r ReleasesCreate_example
    by simp
  then show ?thesis
    using treeEntries_files[of example_codecs example_storage ?app ?entries "[(''FOO'', ''bar'')]"
        "''first release''" "fst ?run" "fst (snd ?run)" "snd (snd ?run)"]
    by (simp add: web_def Sprintf_d_1)
qed

subsection \<open>Encoding and decoding\<close>

lemma treeEntries_all_four:
  assumes "treeEntries c s A = Inr entries"
    and "Environment A = Some env" and "Image A = Some img" and "Formation A = Some form"
  shows "\<exists>envFile formation.
           dotenv_Write c env = Inr envFile \<and> jsonMarshal c form = Inr formation \<and>
           entries =
             [blob (Storage_Path s [Name A, FileVersion]) (''v'' @ Sprintf_d (Version A)),
              blob (Storage_Path s [Name A, FileEnv]) envFile,
              blob (Storage_Path s [Name A, FileImage]) (image_String c img),
              blob (Storage_Path s [Name A, FileServices]) formation]"
  using assms by (auto simp: treeEntries_def Let_def split: sum.splits)

lemma loadApp_version_step:
  assumes "fileContent f (PathJoin (Name app) [FileVersion]) = Inr (''v'' @ Sprintf_d v)"
  shows "loadApp c f app =
     (case decodeFile c f (PathJoin (Name app) [FileServices]) (Formation app) of
        Inl err \<Rightarrow> Inl err
      | Inr formation \<Rightarrow>
     (case fileContent f (PathJoin (Name app) [FileImage]) of
        Inl err \<Rightarrow> Inl err
      | Inr imageContent \<Rightarrow>
     (case image_Decode c imageContent of
        Inl err \<Rightarrow> Inl (Error (CodecError err))
      | Inr img \<Rightarrow>
     (case fileContent f (PathJoin (Name app) [FileEnv]) of
        Inl err \<Rightarrow> Inl err
      | Inr envContent \<Rightarrow>
     (case dotenv_Read c envContent of
        Inl err \<Rightarrow> Inl (Error (CodecError err))
      | Inr env \<Rightarrow>
          Inr (app\<lparr>Version := v, Formation := formation, Image := Some img, Environment := env\<rparr>))))))"
  using assms TrimSpace_version[of v]
  by (simp add: loadApp_def Atoi_Sprintf_d Let_def split: sum.splits)

text \<open>
  Claim C2. Let \<^verbatim>\<open>treeEntries\<close> encode an application whose environment, image and
  formation are all there, and let a fetcher serve, for each of the four files,
  the content of the entry written for it. Let the codecs read back what they wrote for
  this application (the environment from its \<^verbatim>\<open>app.env\<close>, the image from its string, the
  formation from its JSON): this is what the libraries owe a valid application. Then
  \<^verbatim>\<open>loadApp\<close>, given an application of the same name, returns an application with the
  same version, environment, image and formation. The version comes back for every
  \<^verbatim>\<open>int\<close>: \<^verbatim>\<open>Atoi\<close> reads what \<^verbatim>\<open>%d\<close> printed.
\<close>

theorem loadApp_treeEntries_round_trip:
  assumes "treeEntries c s A = Inr entries"
    and "Environment A = Some env" and "Image A = Some img" and "Formation A = Some form"
    and "Name app0 = Name A"
    and "serves f entries (Storage_Path s [Name A, FileVersion]) (PathJoin (Name A) [FileVersion])"
    and "serves f entries (Storage_Path s [Name A, FileServices]) (PathJoin (Name A) [FileServices])"
    and "serves f entries (Storage_Path s [Name A, FileImage]) (PathJoin (Name A) [FileImage])"
    and "serves f entries (Storage_Path s [Name A, FileEnv]) (PathJoin (Name A) [FileEnv])"
    and "\<forall>envFile. dotenv_Write c env = Inr envFile \<longrightarrow> dotenv_Read c envFile = Inr (Some env)"
    and "image_Decode c (image_String c img) = Inr img"
    and "\<forall>formation. jsonMarshal c form = Inr formation \<longrightarrow>
           json_Unmarshal c formation (Formation app0) = Inr (Some form)"
  shows "\<exists>app'. loadApp c f app0 = Inr app' \<and> Version app' = Version A \<and>
           Environment app' = Environment A \<and> Image app' = Image A \<and> Formation app' = Formation A"
proof -
  obtain envFile formation where w: "dotenv_Write c env = Inr envFile"
    and m: "jsonMarshal c form = Inr formation"
    and e: "entries =
             [blob (Storage_Path s [Name A, FileVersion]) (''v'' @ Sprintf_d (Version A)),
              blob (Storage_Path s [Name A, FileEnv]) envFile,
              blob (Storage_Path s [Name A, FileImage]) (image_String c img),
              blob (Storage_Path s [Name A, FileServices]) formation]"
    using treeEntries_all_four[OF assms(1-4)] by blast
  have v: "fileContent f (PathJoin (Name app0) [FileVersion]) = Inr (''v'' @ Sprintf_d (Version A))"
    using assms(6) assms(5) unfolding e
    by (auto simp: serves_def blob_def Storage_Path_file QueryEscape_files)
  have sv: "fileContent f (PathJoin (Name app0) [FileServices]) = Inr formation"
    using assms(7) assms(5) unfolding e
    by (auto simp: serves_def blob_def Storage_Path_file QueryEscape_files)
  have im: "fileContent f (PathJoin (Name app0) [FileImage]) = Inr (image_String c img)"
    using assms(8) assms(5) unfolding e
    by (auto simp: serves_def blob_def Storage_Path_file QueryEscape_files)
  have en: "fileContent f (PathJoin (Name app0) [FileEnv]) = Inr envFile"
    using assms(9) assms(5) unfolding e
    by (auto simp: serves_def blob_def Storage_Path_file QueryEscape_files)
  have d: "decodeFile c f (PathJoin (Name app0) [FileServices]) (Formation app0) = Inr (Some form)"
    using sv m assms(12) by (simp add: decodeFile_def)
  have r: "dotenv_Read c envFile = Inr (Some env)" using w assms(10) by simp
  show ?thesis
    unfolding loadApp_version_step[OF v]
    by (simp add: d im en r assms(11) assms(2-4))
qed

lemma PathJoin_web:
  "PathJoin ''web'' [FileServices] = ''web/services.json''"
  "PathJoin ''web'' [FileImage] = ''web/image.txt''"
  "PathJoin ''web'' [FileEnv] = ''web/app.env''"
  by (simp_all add: PathJoin_structure QueryEscape_files)

lemma Storage_Path_web:
  "Storage_Path example_storage [''web'', file] = ''base/web/'' @ QueryEscape file"
  by (simp add: Storage_Path_file QueryEscape_web example_storage_def)

lemma Sprintf_d_41: "Sprintf_d 41 = ''41''"
  by (simp add: Sprintf_d_def FormatInt_def digits.simps digit_char_simps)

lemma example_dotenv_Read_FOO:
  "dotenv_Read example_codecs ''FOO=bar\<newline>'' = Inr (Some [(''FOO'', ''bar'')])"
  by (simp add: example_codecs_def example_dotenv_Read_def parse_env_line_def)

lemma example_codecs_simps:
  "jsonMarshal example_codecs v = Inr v" "image_String example_codecs img = img"
  by (simp_all add: jsonMarshal_def example_codecs_def)

lemma treeEntries_example_app:
  "treeEntries example_codecs example_storage example_app =
     Inr [blob ''base/web/VERSION'' ''v41'', blob ''base/web/app.env'' ''FOO=bar\<newline>'',
          blob ''base/web/image.txt'' ''nginx'', blob ''base/web/services.json'' ''{}'']"
  by (simp add: treeEntries_def example_app_def Storage_Path_web QueryEscape_files Sprintf_d_41
      example_dotenv_Write_FOO example_codecs_simps)

theorem loadApp_treeEntries_round_trip_witness:
  "\<exists>app'. loadApp example_codecs
      (serve [(''web/VERSION'', ''v41''), (''web/app.env'', ''FOO=bar\<newline>''),
              (''web/image.txt'', ''nginx''), (''web/services.json'', ''{}'')]) (named ''web'') = Inr app' \<and>
     Version app' = 41 \<and> Environment app' = Some [(''FOO'', ''bar'')] \<and>
     Image app' = Some ''nginx'' \<and> Formation app' = Some ''{}''"
proof -
  let ?f = "serve [(''web/VERSION'', ''v41''), (''web/app.env'', ''FOO=bar\<newline>''),
              (''web/image.txt'', ''nginx''), (''web/services.json'', ''{}'')]"
  let ?entries = "[blob ''base/web/VERSION'' ''v41'', blob ''base/web/app.env'' ''FOO=bar\<newline>'',
          blob ''base/web/image.txt'' ''nginx'', blob ''base/web/services.json'' ''{}'']"
  have n: "Name example_app = ''web''" by (simp add: example_app_def)
  have 1: "Environment example_app = Some [(''FOO'', ''bar'')]" by (simp add: example_app_def)
  have 2: "Image example_app = Some ''nginx''" by (simp add: example_app_def)
  have 3: "Formation example_app = Some ''{}''" by (simp add: example_app_def)
  have 4: "Name (named ''web'' :: ((string \<times> string) list, string, string) App) = Name example_app"
    by (simp add: named_def example_app_def)
  have 5: "serves ?f ?entries (Storage_Path example_storage [Name example_app, FileVersion])
             (PathJoin (Name example_app) [FileVersion])"
    unfolding n by (simp add: serves_def blob_def Storage_Path_web QueryEscape_files
        PathJoin_web_VERSION fileContent_serve)
  have 6: "serves ?f ?entries (Storage_Path example_storage [Name example_app, FileServices])
             (PathJoin (Name example_app) [FileServices])"
    unfolding n by (simp add: serves_def blob_def Storage_Path_web QueryEscape_files
        PathJoin_web fileContent_serve)
  have 7: "serves ?f ?entries (Storage_Path example_storage [Name example_app, FileImage])
             (PathJoin (Name example_app) [FileImage])"
    unfolding n by (simp add: serves_def blob_def Storage_Path_web QueryEscape_files
        PathJoin_web fileContent_serve)
  have 8: "serves ?f ?entries (Storage_Path example_storage [Name example_app, FileEnv])
             (PathJoin (Name example_app) [FileEnv])"
    unfolding n by (simp add: serves_def blob_def Storage_Path_web QueryEscape_files
        PathJoin_web fileContent_serve)
  have 9: "\<forall>envFile. dotenv_Write example_codecs [(''FOO'', ''bar'')] = Inr envFile \<longrightarrow>
             dotenv_Read example_codecs envFile = Inr (Some [(''FOO'', ''bar'')])"
    by (simp add: example_dotenv_Write_FOO example_dotenv_Read_FOO)
  have 10: "image_Decode example_codecs (image_String example_codecs ''nginx'') = Inr ''nginx''"
    by (simp add: example_codecs_def)
  have 11: "\<forall>formation. jsonMarshal example_codecs ''{}'' = Inr formation \<longrightarrow>
           json_Unmarshal example_codecs formation
             (Formation (named ''web'' :: ((string \<times> string) list, string, string) App)) = Inr (Some ''{}'')"
    by (simp add: jsonMarshal_def example_codecs_def example_json_Unmarshal_def)
  show ?thesis
    using loadApp_treeEntries_round_trip[OF treeEntries_example_app 1 2 3 4 5 6 7 8 9 10 11]
    by (simp add: example_app_def)
qed

subsection \<open>Creating a release\<close>

lemma ReleasesCreate_Inr:
  "fst (ReleasesCreate c s app d) = Inr release \<Longrightarrow>
     release = \<lparr>App = app\<lparr>Version := Version app + 1\<rparr>, Description = d, CreatedAt = None\<rparr>"
  by (auto simp: ReleasesCreate_def Let_def split: sum.splits option.splits)

lemma ReleasesCreate_all_succeed:
  assumes "Git_GetRef (github s) (Owner s) (Repo s) (Ref s) = Inr ref"
    and "Object ref = Some obj" and "object_SHA obj = Some sha"
    and "Git_GetCommit (github s) (Owner s) (Repo s) sha = Inr lastCommit"
    and "commit_Tree lastCommit = Some base" and "tree_SHA base = Some baseSHA"
    and "treeEntries c s (app\<lparr>Version := Version app + 1\<rparr>) = Inr entries"
    and "Git_CreateTree (github s) (Owner s) (Repo s) baseSHA entries = Inr tree"
    and "Git_CreateCommit (github s) (Owner s) (Repo s)
           (Commit None (Some d) (Some tree) [lastCommit] None) = Inr commit"
    and "Repositories_Merge (github s) (Owner s) (Repo s) (Some (Ref s)) (commit_SHA commit) = Inr u"
  shows "ReleasesCreate c s app d =
     (Inr \<lparr>App = app\<lparr>Version := Version app + 1\<rparr>, Description = d, CreatedAt = None\<rparr>,
      app\<lparr>Version := Version app + 1\<rparr>,
      [Call_GetRef (Owner s) (Repo s) (Ref s),
       Call_GetCommit (Owner s) (Repo s) sha,
       Call_CreateTree (Owner s) (Repo s) baseSHA entries,
       Call_CreateCommit (Owner s) (Repo s) (Commit None (Some d) (Some tree) [lastCommit] None),
       Call_Merge (Owner s) (Repo s) (Some (Ref s)) (commit_SHA commit)])"
  using assms by (simp add: ReleasesCreate_def Let_def)

lemma ReleasesCreate_seq_version:
  "ReleasesCreate_seq c runs app = Inr app' \<Longrightarrow> Version app' = Version app + of_nat (length runs)"
proof (induction runs arbitrary: app)
  case Nil
  then show ?case by simp
next
  case (Cons run runs)
  from Cons.prems obtain release where
    "ReleasesCreate_seq c runs (fst (snd (ReleasesCreate c (fst run) app (snd run)))) = Inr app'"
    by (auto split: sum.splits)
  then have "Version app' = Version (fst (snd (ReleasesCreate c (fst run) app (snd run)))) + of_nat (length runs)"
    by (rule Cons.IH)
  then show ?case by (simp add: ReleasesCreate_app)
qed

lemma sint_add_of_nat:
  fixes v :: go_int
  assumes "sint v + int n < 2 ^ 63"
  shows "sint (v + of_nat n) = sint v + int n"
proof -
  have "v + of_nat n = word_of_int (sint v + int n)" by simp
  then have "sint (v + of_nat n) = signed_take_bit 63 (sint v + int n)"
    by (simp only: sint_sbintrunc') simp
  moreover have "- (2 ^ 63) \<le> sint v + int n" using sint_ge[of v] by simp
  ultimately show ?thesis using assms by (simp add: signed_take_bit_int_eq_self)
qed

text \<open>
  Claim C3. A release that \<^verbatim>\<open>ReleasesCreate\<close> returns holds the application it was
  given, with the version one higher (in the arithmetic of \<^verbatim>\<open>int\<close>), and the
  description given; the caller's application is that same application. It returns a
  release when the ref and its commit are fetched, the entries are built, and the tree,
  the commit and the merge are made, each answer carrying the fields the code
  dereferences. After any number of releases in a row that all succeed the version is
  the first version plus that number, as an integer too, as long as the sum fits the
  \<^verbatim>\<open>int\<close>.
\<close>

theorem ReleasesCreate_increments_version:
  "(fst (ReleasesCreate c s app d) = Inr release \<longrightarrow>
      release = \<lparr>App = app\<lparr>Version := Version app + 1\<rparr>, Description = d, CreatedAt = None\<rparr> \<and>
      fst (snd (ReleasesCreate c s app d)) = App release \<and>
      Version (App release) = Version app + 1 \<and> Description release = d) \<and>
   (Git_GetRef (github s) (Owner s) (Repo s) (Ref s) = Inr ref \<and>
    Object ref = Some obj \<and> object_SHA obj = Some sha \<and>
    Git_GetCommit (github s) (Owner s) (Repo s) sha = Inr lastCommit \<and>
    commit_Tree lastCommit = Some base \<and> tree_SHA base = Some baseSHA \<and>
    treeEntries c s (app\<lparr>Version := Version app + 1\<rparr>) = Inr entries \<and>
    Git_CreateTree (github s) (Owner s) (Repo s) baseSHA entries = Inr tree \<and>
    Git_CreateCommit (github s) (Owner s) (Repo s)
      (Commit None (Some d) (Some tree) [lastCommit] None) = Inr commit \<and>
    Repositories_Merge (github s) (Owner s) (Repo s) (Some (Ref s)) (commit_SHA commit) = Inr u \<longrightarrow>
      fst (ReleasesCreate c s app d) =
        Inr \<lparr>App = app\<lparr>Version := Version app + 1\<rparr>, Description = d, CreatedAt = None\<rparr>) \<and>
   (ReleasesCreate_seq c runs app = Inr app' \<longrightarrow>
      Version app' = Version app + of_nat (length runs) \<and>
      (sint (Version app) + int (length runs) < 2 ^ 63 \<longrightarrow>
         sint (Version app') = sint (Version app) + int (length runs)))"
proof (intro conjI impI)
  assume r: "fst (ReleasesCreate c s app d) = Inr release"
  show e: "release = \<lparr>App = app\<lparr>Version := Version app + 1\<rparr>, Description = d, CreatedAt = None\<rparr>"
    using r by (rule ReleasesCreate_Inr)
  show "fst (snd (ReleasesCreate c s app d)) = App release"
    using e by (simp add: ReleasesCreate_app)
  show "Version (App release) = Version app + 1" using e by simp
  show "Description release = d" using e by simp
next
  assume "Git_GetRef (github s) (Owner s) (Repo s) (Ref s) = Inr ref \<and>
    Object ref = Some obj \<and> object_SHA obj = Some sha \<and>
    Git_GetCommit (github s) (Owner s) (Repo s) sha = Inr lastCommit \<and>
    commit_Tree lastCommit = Some base \<and> tree_SHA base = Some baseSHA \<and>
    treeEntries c s (app\<lparr>Version := Version app + 1\<rparr>) = Inr entries \<and>
    Git_CreateTree (github s) (Owner s) (Repo s) baseSHA entries = Inr tree \<and>
    Git_CreateCommit (github s) (Owner s) (Repo s)
      (Commit None (Some d) (Some tree) [lastCommit] None) = Inr commit \<and>
    Repositories_Merge (github s) (Owner s) (Repo s) (Some (Ref s)) (commit_SHA commit) = Inr u"
  then show "fst (ReleasesCreate c s app d) =
        Inr \<lparr>App = app\<lparr>Version := Version app + 1\<rparr>, Description = d, CreatedAt = None\<rparr>"
    using ReleasesCreate_all_succeed[of s ref obj sha lastCommit base baseSHA c app entries tree d commit u]
    by simp
next
  assume q: "ReleasesCreate_seq c runs app = Inr app'"
  then show v: "Version app' = Version app + of_nat (length runs)"
    by (rule ReleasesCreate_seq_version)
  assume "sint (Version app) + int (length runs) < 2 ^ 63"
  then show "sint (Version app') = sint (Version app) + int (length runs)"
    unfolding v by (rule sint_add_of_nat)
qed

lemma treeEntries_web_any:
  assumes "BasePath s = ''base''" "dotenv_Write c env = Inr envFile"
  shows "treeEntries c s (web v (Some env)) =
     Inr [blob ''base/web/VERSION'' (''v'' @ Sprintf_d v), blob ''base/web/app.env'' envFile]"
  using assms
  by (simp add: treeEntries_def web_def Storage_Path_file QueryEscape_files QueryEscape_web)

lemma web_increment: "(web v env)\<lparr>Version := Version (web v env) + 1\<rparr> = web (v + 1) env"
  by (simp add: web_def)

lemma ReleasesCreate_example_any:
  "fst (ReleasesCreate example_codecs example_storage (web v (Some [(''FOO'', ''bar'')])) d) =
     Inr \<lparr>App = web (v + 1) (Some [(''FOO'', ''bar'')]), Description = d, CreatedAt = None\<rparr>"
proof -
  have t: "treeEntries example_codecs example_storage (web (v + 1) (Some [(''FOO'', ''bar'')])) =
     Inr [blob ''base/web/VERSION'' (''v'' @ Sprintf_d (v + 1)), blob ''base/web/app.env'' ''FOO=bar\<newline>'']"
    by (rule treeEntries_web_any) (simp_all add: example_storage_def example_dotenv_Write_FOO)
  show ?thesis
    unfolding ReleasesCreate_def web_increment Let_def t
    by (simp add: example_storage_def example_client_def)
qed

theorem ReleasesCreate_increments_version_witness:
  "fst (ReleasesCreate example_codecs example_storage (web 0 (Some [(''FOO'', ''bar'')])) ''first release'') =
     Inr \<lparr>App = web 1 (Some [(''FOO'', ''bar'')]), Description = ''first release'', CreatedAt = None\<rparr> \<and>
   (\<exists>app'. ReleasesCreate_seq example_codecs
             [(example_storage, ''third release''), (example_storage, ''fourth release'')]
             (web 2 (Some [(''FOO'', ''bar'')])) = Inr app' \<and>
           Version app' = 4 \<and> sint (Version app') = 4)"
proof -
  let ?env = "Some [(''FOO'', ''bar'')] :: (string \<times> string) list option"
  let ?w0 = "web 0 ?env :: ((string \<times> string) list, string, string) App"
  let ?w2 = "web 2 ?env :: ((string \<times> string) list, string, string) App"
  let ?runs = "[(example_storage, ''third release''), (example_storage, ''fourth release'')]"
  let ?last = "Commit (Some ''c2'') (Some ''second'') (Some \<lparr>tree_SHA = Some ''t2''\<rparr>) [] None"
  let ?entries = "[blob ''base/web/VERSION'' ''v1'', blob ''base/web/app.env'' ''FOO=bar\<newline>'']"
  have calls:
    "Git_GetRef (github example_storage) (Owner example_storage) (Repo example_storage) (Ref example_storage)
       = Inr \<lparr>Object = Some \<lparr>object_SHA = Some ''c2''\<rparr>\<rparr> \<and>
     Object \<lparr>Object = Some \<lparr>object_SHA = Some ''c2''\<rparr>\<rparr> = Some \<lparr>object_SHA = Some ''c2''\<rparr> \<and>
     object_SHA \<lparr>object_SHA = Some ''c2''\<rparr> = Some ''c2'' \<and>
     Git_GetCommit (github example_storage) (Owner example_storage) (Repo example_storage) ''c2'' = Inr ?last \<and>
     commit_Tree ?last = Some \<lparr>tree_SHA = Some ''t2''\<rparr> \<and>
     tree_SHA \<lparr>tree_SHA = Some ''t2''\<rparr> = Some ''t2'' \<and>
     treeEntries example_codecs example_storage (?w0\<lparr>Version := Version ?w0 + 1\<rparr>) = Inr ?entries \<and>
     Git_CreateTree (github example_storage) (Owner example_storage) (Repo example_storage) ''t2'' ?entries
       = Inr \<lparr>tree_SHA = Some ''t3''\<rparr> \<and>
     Git_CreateCommit (github example_storage) (Owner example_storage) (Repo example_storage)
       (Commit None (Some ''first release'') (Some \<lparr>tree_SHA = Some ''t3''\<rparr>) [?last] None)
       = Inr (Commit (Some ''c3'') (Some ''first release'') (Some \<lparr>tree_SHA = Some ''t3''\<rparr>) [?last] None) \<and>
     Repositories_Merge (github example_storage) (Owner example_storage) (Repo example_storage)
       (Some (Ref example_storage))
       (commit_SHA (Commit (Some ''c3'') (Some ''first release'') (Some \<lparr>tree_SHA = Some ''t3''\<rparr>) [?last] None))
       = Inr ()"
    using treeEntries_web_any[of example_storage example_codecs "[(''FOO'', ''bar'')]" "''FOO=bar\<newline>''" 1]
    by (simp add: example_storage_def example_client_def web_increment example_dotenv_Write_FOO Sprintf_d_1)
  have seq: "ReleasesCreate_seq example_codecs ?runs ?w2 = Inr (web 4 ?env)"
    by (simp add: ReleasesCreate_example_any ReleasesCreate_app web_increment)
  have small: "sint (Version ?w2) + int (length ?runs) < 2 ^ 63" by (simp add: web_def)
  have "fst (ReleasesCreate example_codecs example_storage ?w0 ''first release'') =
     Inr \<lparr>App = ?w0\<lparr>Version := Version ?w0 + 1\<rparr>, Description = ''first release'', CreatedAt = None\<rparr>"
    using ReleasesCreate_increments_version[THEN conjunct2, THEN conjunct1, rule_format, OF calls] .
  moreover have "Version (web 4 ?env :: ((string \<times> string) list, string, string) App) = 4 \<and>
      sint (Version (web 4 ?env :: ((string \<times> string) list, string, string) App)) = 4"
    using ReleasesCreate_increments_version[THEN conjunct2, THEN conjunct2, rule_format, OF seq] small
    by (simp add: web_def)
  ultimately show ?thesis using seq by (simp add: web_increment)
qed

lemma ReleasesCreate_failing_example:
  "treeEntries failing_codecs example_storage (web 1 (Some [(''FOO'', ''bar'')])) =
     Inl (CodecError ''malformed environment value'')"
  "ReleasesCreate failing_codecs example_storage (web 0 (Some [(''FOO'', ''bar'')])) ''first release'' =
     (Inl (Error (Errorf_generating_tree (CodecError ''malformed environment value''))),
      web 1 (Some [(''FOO'', ''bar'')]),
      [Call_GetRef ''remind101'' ''config'' ''refs/heads/master'',
       Call_GetCommit ''remind101'' ''config'' ''c2''])"
proof -
  show t: "treeEntries failing_codecs example_storage (web 1 (Some [(''FOO'', ''bar'')])) =
     Inl (CodecError ''malformed environment value'')"
    by (simp add: treeEntries_def web_def failing_codecs_def)
  show "ReleasesCreate failing_codecs example_storage (web 0 (Some [(''FOO'', ''bar'')])) ''first release'' =
     (Inl (Error (Errorf_generating_tree (CodecError ''malformed environment value''))),
      web 1 (Some [(''FOO'', ''bar'')]),
      [Call_GetRef ''remind101'' ''config'' ''refs/heads/master'',
       Call_GetCommit ''remind101'' ''config'' ''c2''])"
    unfolding ReleasesCreate_def web_increment Let_def add_0 t
    by (simp add: example_storage_def example_client_def)
qed

text \<open>
  Claim C5 says that no request is sent when building the entries fails. The code
  fetches the ref and its last commit before it builds the entries: with codecs
  whose \<^verbatim>\<open>dotenv.Write\<close> fails, the run below has sent both requests when it returns
  the error.
\<close>

theorem ReleasesCreate_reads_before_encoding:
  "treeEntries failing_codecs example_storage (web 1 (Some [(''FOO'', ''bar'')])) =
     Inl (CodecError ''malformed environment value'') \<and>
   ReleasesCreate failing_codecs example_storage (web 0 (Some [(''FOO'', ''bar'')])) ''first release'' =
     (Inl (Error (Errorf_generating_tree (CodecError ''malformed environment value''))),
      web 1 (Some [(''FOO'', ''bar'')]),
      [Call_GetRef ''remind101'' ''config'' ''refs/heads/master'',
       Call_GetCommit ''remind101'' ''config'' ''c2'']) \<and>
   snd (snd (ReleasesCreate failing_codecs example_storage (web 0 (Some [(''FOO'', ''bar'')]))
     ''first release'')) \<noteq> []"
  by (simp add: ReleasesCreate_failing_example)

text \<open>
  Claim C5, as the code has it. When building the entries fails, \<^verbatim>\<open>ReleasesCreate\<close>
  returns no release and has asked the client to create nothing: no tree, no commit, no
  merge. When the ref and its last commit were fetched, it returns the error of the
  encoder, wrapped as \<^verbatim>\<open>generating tree\<close>, after exactly these two reading requests;
  the version of the caller's application is incremented all the same.
\<close>

theorem ReleasesCreate_encoding_failure:
  assumes "treeEntries c s (app\<lparr>Version := Version app + 1\<rparr>) = Inl err"
  shows "(\<forall>release. fst (ReleasesCreate c s app d) \<noteq> Inr release) \<and>
    \<not> (\<exists>x \<in> set (snd (snd (ReleasesCreate c s app d))). is_write x) \<and>
    (Git_GetRef (github s) (Owner s) (Repo s) (Ref s) = Inr ref \<and>
     Object ref = Some obj \<and> object_SHA obj = Some sha \<and>
     Git_GetCommit (github s) (Owner s) (Repo s) sha = Inr lastCommit \<longrightarrow>
       ReleasesCreate c s app d =
         (Inl (Error (Errorf_generating_tree err)), app\<lparr>Version := Version app + 1\<rparr>,
          [Call_GetRef (Owner s) (Repo s) (Ref s), Call_GetCommit (Owner s) (Repo s) sha]))"
  using assms by (auto simp: ReleasesCreate_def Let_def split: sum.splits option.splits)

theorem ReleasesCreate_encoding_failure_witness:
  "(\<forall>release. fst (ReleasesCreate failing_codecs example_storage (web 0 (Some [(''FOO'', ''bar'')]))
       ''first release'') \<noteq> Inr release) \<and>
   \<not> (\<exists>x \<in> set (snd (snd (ReleasesCreate failing_codecs example_storage
       (web 0 (Some [(''FOO'', ''bar'')])) ''first release''))). is_write x) \<and>
   ReleasesCreate failing_codecs example_storage (web 0 (Some [(''FOO'', ''bar'')])) ''first release'' =
     (Inl (Error (Errorf_generating_tree (CodecError ''malformed environment value''))),
      web 1 (Some [(''FOO'', ''bar'')]),
      [Call_GetRef ''remind101'' ''config'' ''refs/heads/master'',
       Call_GetCommit ''remind101'' ''config'' ''c2''])"
proof -
  let ?w0 = "web 0 (Some [(''FOO'', ''bar'')]) :: ((string \<times> string) list, string, string) App"
  have t: "treeEntries failing_codecs example_storage (?w0\<lparr>Version := Version ?w0 + 1\<rparr>) =
     Inl (CodecError ''malformed environment value'')"
    by (simp add: web_increment ReleasesCreate_failing_example(1))
  have calls:
    "Git_GetRef (github example_storage) (Owner example_storage) (Repo example_storage) (Ref example_storage)
       = Inr \<lparr>Object = Some \<lparr>object_SHA = Some ''c2''\<rparr>\<rparr> \<and>
     Object \<lparr>Object = Some \<lparr>object_SHA = Some ''c2''\<rparr>\<rparr> = Some \<lparr>object_SHA = Some ''c2''\<rparr> \<and>
     object_SHA \<lparr>object_SHA = Some ''c2''\<rparr> = Some ''c2'' \<and>
     Git_GetCommit (github example_storage) (Owner example_storage) (Repo example_storage) ''c2''
       = Inr (Commit (Some ''c2'') (Some ''second'') (Some \<lparr>tree_SHA = Some ''t2''\<rparr>) [] None)"
    by (simp add: example_storage_def example_client_def)
  note th = ReleasesCreate_encoding_failure[OF t, of "''first release''"]
  have "ReleasesCreate failing_codecs example_storage ?w0 ''first release'' =
     (Inl (Error (Errorf_generating_tree (CodecError ''malformed environment value''))),
      ?w0\<lparr>Version := Version ?w0 + 1\<rparr>,
      [Call_GetRef (Owner example_storage) (Repo example_storage) (Ref example_storage),
       Call_GetCommit (Owner example_storage) (Repo example_storage) ''c2''])"
    using th[THEN conjunct2, THEN conjunct2, rule_format, OF calls] .
  then show ?thesis
    using th[THEN conjunct1] th[THEN conjunct2, THEN conjunct1]
    by (simp add: web_increment example_storage_def)
qed

subsection \<open>Decoding the version and the formation\<close>

lemma dec_value_ge: "n \<le> dec_value n ds"
proof (induction ds arbitrary: n)
  case Nil
  then show ?case by (simp add: dec_value_def)
next
  case (Cons c ds)
  have "n \<le> n * 10 + ((of_char c :: nat) - 48)" by simp
  also have "\<dots> \<le> dec_value (n * 10 + ((of_char c :: nat) - 48)) ds" by (rule Cons.IH)
  finally show ?case by (simp add: dec_value_def)
qed

lemma ParseUint_not_digits: "\<not> list_all is_digit ds \<Longrightarrow> \<exists>k. ParseUint n ds = Inl k"
  by (induction ds arbitrary: n) auto

lemma ParseUint_all_digits:
  "list_all is_digit ds \<Longrightarrow> n < 2 ^ 64 \<Longrightarrow>
     ParseUint n ds = (if dec_value n ds < 2 ^ 64 then Inr (dec_value n ds) else Inl ErrRange)"
proof (induction ds arbitrary: n)
  case Nil
  then show ?case by (simp add: dec_value_def)
next
  case (Cons c ds)
  let ?n = "n * 10 + ((of_char c :: nat) - 48)"
  have c: "is_digit c" "list_all is_digit ds" using Cons.prems by simp_all
  have d: "dec_value n (c # ds) = dec_value ?n ds" by (simp add: dec_value_def)
  show ?case
  proof (cases "2 ^ 64 \<le> ?n")
    case True
    then have "\<not> dec_value ?n ds < 2 ^ 64" using dec_value_ge[of ?n ds] by linarith
    then show ?thesis using True c by (simp add: d)
  next
    case False
    then have "?n < 2 ^ 64" by simp
    then show ?thesis using False c Cons.IH[of ?n] by (simp add: d)
  qed
qed

lemma sint_of_nat_small:
  "n < 2 ^ 63 \<Longrightarrow> sint (word_of_nat n :: go_int) = int n"
proof -
  assume a: "n < 2 ^ 63"
  have "sint (word_of_int (int n) :: go_int) = signed_take_bit 63 (int n)"
    by (simp only: sint_sbintrunc') simp
  moreover have "int n < 2 ^ 63" using a by simp
  ultimately show ?thesis by (simp add: signed_take_bit_int_eq_self)
qed

lemma sint_neg_of_nat_small:
  "n \<le> 2 ^ 63 \<Longrightarrow> sint (- word_of_nat n :: go_int) = - int n"
proof -
  assume a: "n \<le> 2 ^ 63"
  have "(- word_of_nat n :: go_int) = word_of_int (- int n)" by simp
  then have "sint (- word_of_nat n :: go_int) = signed_take_bit 63 (- int n)"
    by (simp only: sint_sbintrunc') simp
  moreover have "- (2 ^ 63) \<le> - int n" using a by simp
  ultimately show ?thesis by (simp add: signed_take_bit_int_eq_self)
qed

lemma decimal_int_Cons:
  "body = (if c = CHR ''+'' \<or> c = CHR ''-'' then cs else c # cs) \<Longrightarrow>
   decimal_int (c # cs) =
     (if body \<noteq> [] \<and> list_all is_digit body
      then Some (if c = CHR ''-'' then - int (dec_value 0 body) else int (dec_value 0 body))
      else None)"
  by (simp add: decimal_int_def Let_def)

lemma ParseInt_Cons:
  "body = (if c = CHR ''+'' \<or> c = CHR ''-'' then cs else c # cs) \<Longrightarrow>
   ParseInt (c # cs) =
     (if body = [] then Inl ErrSyntax
      else (case ParseUint 0 body of
           Inl ErrSyntax \<Rightarrow> Inl ErrSyntax
         | Inl ErrRange \<Rightarrow> Inl ErrRange
         | Inr un \<Rightarrow>
             if \<not> c = CHR ''-'' \<and> 2 ^ 63 \<le> un then Inl ErrRange
             else if c = CHR ''-'' \<and> 2 ^ 63 < un then Inl ErrRange
             else Inr (if c = CHR ''-'' then - word_of_nat un else word_of_nat un)))"
  by (simp add: ParseInt_def Let_def)

lemma ParseInt_decimal_Some:
  assumes "decimal_int s = Some i"
  shows "ParseInt s = (if - (2 ^ 63) \<le> i \<and> i < 2 ^ 63 then Inr (word_of_int i) else Inl ErrRange)"
proof (cases s)
  case Nil
  then show ?thesis using assms by (simp add: decimal_int_def)
next
  case (Cons c cs)
  define body where "body = (if c = CHR ''+'' \<or> c = CHR ''-'' then cs else c # cs)"
  have ok: "body \<noteq> [] \<and> list_all is_digit body"
    using assms Cons decimal_int_Cons[OF body_def] by (simp split: if_splits)
  have i: "i = (if c = CHR ''-'' then - int (dec_value 0 body) else int (dec_value 0 body))"
    using assms Cons decimal_int_Cons[OF body_def] ok by simp
  have p: "ParseUint 0 body =
        (if dec_value 0 body < 2 ^ 64 then Inr (dec_value 0 body) else Inl ErrRange)"
    using ParseUint_all_digits[of body 0] ok by simp
  show ?thesis
    unfolding Cons ParseInt_Cons[OF body_def] p i using ok by (auto simp: not_less)
qed

lemma Atoi_decimal_None: "decimal_int s = None \<Longrightarrow> \<exists>k. Atoi s = Inl (NumError ''Atoi'' s k)"
proof (cases s)
  case Nil
  then show ?thesis by (simp add: Atoi_def ParseInt_def)
next
  case (Cons c cs)
  assume n: "decimal_int s = None"
  define body where "body = (if c = CHR ''+'' \<or> c = CHR ''-'' then cs else c # cs)"
  have "body = [] \<or> \<not> list_all is_digit body"
    using n Cons decimal_int_Cons[OF body_def] by (simp split: if_splits)
  then show ?thesis
  proof
    assume "body = []"
    then show ?thesis unfolding Cons Atoi_def ParseInt_Cons[OF body_def] by simp
  next
    assume nd: "\<not> list_all is_digit body"
    then obtain k where k: "ParseUint 0 body = Inl k" using ParseUint_not_digits by blast
    have "body \<noteq> []" using nd by auto
    then show ?thesis unfolding Cons Atoi_def ParseInt_Cons[OF body_def] k
      by (cases k) simp_all
  qed
qed

lemma Atoi_decimal_Some:
  "decimal_int s = Some i \<Longrightarrow>
     Atoi s = (if - (2 ^ 63) \<le> i \<and> i < 2 ^ 63 then Inr (word_of_int i)
               else Inl (NumError ''Atoi'' s ErrRange))"
  using ParseInt_decimal_Some[of s i] by (simp add: Atoi_def)

lemma sint_word_of_int_range:
  "- (2 ^ 63) \<le> i \<Longrightarrow> i < 2 ^ 63 \<Longrightarrow> sint (word_of_int i :: go_int) = i"
proof -
  assume a: "- (2 ^ 63) \<le> i" "i < 2 ^ 63"
  have "sint (word_of_int i :: go_int) = signed_take_bit 63 i"
    by (simp only: sint_sbintrunc') simp
  then show ?thesis using a by (simp add: signed_take_bit_int_eq_self)
qed

lemma loadApp_after_version:
  assumes "fileContent f (PathJoin (Name app) [FileVersion]) = Inr version"
    and "TrimSpace version = first # rest" and "Atoi rest = Inr vi"
  shows "loadApp c f app =
     (case decodeFile c f (PathJoin (Name app) [FileServices]) (Formation app) of
        Inl err \<Rightarrow> Inl err
      | Inr formation \<Rightarrow>
     (case fileContent f (PathJoin (Name app) [FileImage]) of
        Inl err \<Rightarrow> Inl err
      | Inr imageContent \<Rightarrow>
     (case image_Decode c imageContent of
        Inl err \<Rightarrow> Inl (Error (CodecError err))
      | Inr img \<Rightarrow>
     (case fileContent f (PathJoin (Name app) [FileEnv]) of
        Inl err \<Rightarrow> Inl err
      | Inr envContent \<Rightarrow>
     (case dotenv_Read c envContent of
        Inl err \<Rightarrow> Inl (Error (CodecError err))
      | Inr env \<Rightarrow>
          Inr (app\<lparr>Version := vi, Formation := formation, Image := Some img, Environment := env\<rparr>))))))"
  using assms by (simp add: loadApp_def Let_def split: sum.splits)

lemma fileContent_error_shape:
  "fileContent f p = Inl (Error err) \<Longrightarrow>
     (\<exists>msg. err = Errorf_get_contents_of p (GitHubError msg)) \<or>
     (\<exists>msg. err = Errorf_decoding p (GitHubError msg))"
  by (auto simp: fileContent_def split: sum.splits option.splits prod.splits)

lemma loadApp_after_version_props:
  assumes "fileContent f (PathJoin (Name app) [FileVersion]) = Inr version"
    and "TrimSpace version = first # rest" and "Atoi rest = Inr vi"
  shows "loadApp c f app \<noteq> Inl (Error (NumError fn num k))"
    and "loadApp c f app = Inr app' \<Longrightarrow> Version app' = vi"
proof -
  note l = loadApp_after_version[OF assms, of c]
  show "loadApp c f app \<noteq> Inl (Error (NumError fn num k))"
    unfolding l
    using fileContent_error_shape[of f "PathJoin (Name app) [FileServices]" "NumError fn num k"]
      fileContent_error_shape[of f "PathJoin (Name app) [FileImage]" "NumError fn num k"]
      fileContent_error_shape[of f "PathJoin (Name app) [FileEnv]" "NumError fn num k"]
    by (auto simp: decodeFile_def split: sum.splits)
  show "loadApp c f app = Inr app' \<Longrightarrow> Version app' = vi"
    unfolding l by (auto split: sum.splits)
qed

text \<open>
  Claim C6, as the code has it. When the \<^verbatim>\<open>VERSION\<close> file cannot be read, \<^verbatim>\<open>loadApp\<close>
  fails with the failure of the read. Otherwise it trims the content and, when something
  is left (claim C10 is about the other case), drops the first byte, whatever it is.
  When the rest is not an optional sign followed by digits, it returns the error of
  \<^verbatim>\<open>strconv.Atoi\<close>; when it is such an integer outside the range of \<^verbatim>\<open>int\<close>, it
  returns the range error of \<^verbatim>\<open>Atoi\<close>; and when it fits, \<^verbatim>\<open>loadApp\<close> returns no error
  of \<^verbatim>\<open>Atoi\<close>, and an application it returns has this integer as its version. (The
  later files can still make it fail.)
\<close>

theorem loadApp_version:
  "(case fileContent f (PathJoin (Name app) [FileVersion]) of
      Inl failure \<Rightarrow> loadApp c f app = Inl failure
    | Inr version \<Rightarrow>
       (case TrimSpace version of
          [] \<Rightarrow> True
        | first # rest \<Rightarrow>
           (case decimal_int rest of
              None \<Rightarrow> (\<exists>k. loadApp c f app = Inl (Error (NumError ''Atoi'' rest k)))
            | Some i \<Rightarrow>
                if - (2 ^ 63) \<le> i \<and> i < 2 ^ 63
                then (\<forall>k. loadApp c f app \<noteq> Inl (Error (NumError ''Atoi'' rest k))) \<and>
                     (\<forall>app'. loadApp c f app = Inr app' \<longrightarrow> sint (Version app') = i)
                else loadApp c f app = Inl (Error (NumError ''Atoi'' rest ErrRange)))))"
proof (cases "fileContent f (PathJoin (Name app) [FileVersion])")
  case (Inl failure)
  then show ?thesis by (simp add: loadApp_def)
next
  case (Inr version)
  show ?thesis
  proof (cases "TrimSpace version")
    case Nil
    then show ?thesis using Inr by simp
  next
    case (Cons first rest)
    show ?thesis
    proof (cases "decimal_int rest")
      case None
      then obtain k where "Atoi rest = Inl (NumError ''Atoi'' rest k)"
        using Atoi_decimal_None by blast
      then have "loadApp c f app = Inl (Error (NumError ''Atoi'' rest k))"
        using Inr Cons by (simp add: loadApp_def)
      then show ?thesis using Inr Cons None by simp
    next
      case (Some i)
      show ?thesis
      proof (cases "- (2 ^ 63) \<le> i \<and> i < 2 ^ 63")
        case True
        then have a: "Atoi rest = Inr (word_of_int i)" using Atoi_decimal_Some[OF Some] by simp
        have "sint (word_of_int i :: go_int) = i" using True sint_word_of_int_range by blast
        then show ?thesis
          using Inr Cons Some True loadApp_after_version_props[OF Inr Cons a, of c]
          by auto
      next
        case False
        then have "Atoi rest = Inl (NumError ''Atoi'' rest ErrRange)"
          using Atoi_decimal_Some[OF Some] by simp
        then have "loadApp c f app = Inl (Error (NumError ''Atoi'' rest ErrRange))"
          using Inr Cons by (simp add: loadApp_def)
        then show ?thesis using Inr Cons Some False by simp
      qed
    qed
  qed
qed

lemma TrimSpace_examples:
  "TrimSpace [] = []" "TrimSpace ''v41'' = ''v41''" "TrimSpace ''x41'' = ''x41''"
  "TrimSpace ''v1'' = ''v1''" "TrimSpace ''v9223372036854775808'' = ''v9223372036854775808''"
  "TrimSpace ''vx'' = ''vx''"
  by (simp_all add: TrimSpace_def trim_front.simps rune_width_def space_runes_def)

lemma Atoi_examples:
  "Atoi ''41'' = Inr 41" "Atoi ''1'' = Inr 1"
  "Atoi ''9223372036854775808'' = Inl (NumError ''Atoi'' ''9223372036854775808'' ErrRange)"
  "Atoi ''x'' = Inl (NumError ''Atoi'' ''x'' ErrSyntax)"
  by (simp_all add: Atoi_def ParseInt_def is_digit_def)

lemma decimal_int_examples: "decimal_int ''41'' = Some 41" "decimal_int ''x'' = None"
  by (simp_all add: decimal_int_def dec_value_def is_digit_def)

lemma example_codecs_decoders:
  "json_Unmarshal example_codecs ''{}'' v = Inr (Some ''{}'')"
  "json_Unmarshal example_codecs ''{'' v = Inl ''unexpected end of JSON input''"
  "image_Decode example_codecs ''nginx'' = Inr ''nginx''"
  by (simp_all add: example_codecs_def example_json_Unmarshal_def)

lemma named_web:
  "Name (named ''web'') = ''web''" "Formation (named ''web'') = None"
  by (simp_all add: named_def)

lemma loadApp_example_41:
  "loadApp example_codecs
     (serve [(''web/VERSION'', ''v41''), (''web/app.env'', ''FOO=bar\<newline>''),
             (''web/image.txt'', ''nginx''), (''web/services.json'', ''{}'')]) (named ''web'') =
   Inr example_app"
  by (simp add: loadApp_def named_web PathJoin_web_VERSION PathJoin_web fileContent_serve
      decodeFile_def TrimSpace_examples Atoi_examples example_codecs_decoders example_dotenv_Read_FOO)
     (simp add: named_def example_app_def)

text \<open>
  Claim C6 says that \<^verbatim>\<open>loadApp\<close> fails with a decode error exactly when the \<^verbatim>\<open>VERSION\<close>
  file is absent or what follows the prefix \<^verbatim>\<open>v\<close> is no decimal integer. Three runs of
  the code against it: with \<^verbatim>\<open>v1\<close> in the file it fails all the same, on the next
  file; a decimal integer that does not fit the \<^verbatim>\<open>int\<close> is an error; and a first byte
  that is not \<^verbatim>\<open>v\<close> is dropped like any other.
\<close>

theorem loadApp_version_counterexample:
  "loadApp example_codecs (serve [(''web/VERSION'', ''v1'')]) (named ''web'') =
     Inl (Error (Errorf_get_contents_of ''web/services.json'' (GitHubError ''404 Not Found''))) \<and>
   loadApp example_codecs (serve [(''web/VERSION'', ''v9223372036854775808'')]) (named ''web'') =
     Inl (Error (NumError ''Atoi'' ''9223372036854775808'' ErrRange)) \<and>
   loadApp example_codecs
     (serve [(''web/VERSION'', ''x41''), (''web/app.env'', ''FOO=bar\<newline>''),
             (''web/image.txt'', ''nginx''), (''web/services.json'', ''{}'')]) (named ''web'') =
     Inr example_app \<and>
   Version example_app = 41"
proof -
  have 2: "loadApp example_codecs (serve [(''web/VERSION'', ''v1'')]) (named ''web'') =
     Inl (Error (Errorf_get_contents_of ''web/services.json'' (GitHubError ''404 Not Found'')))"
    by (simp add: loadApp_def named_web PathJoin_web_VERSION PathJoin_web fileContent_serve
        decodeFile_def TrimSpace_examples Atoi_examples)
  have 3: "loadApp example_codecs (serve [(''web/VERSION'', ''v9223372036854775808'')]) (named ''web'') =
     Inl (Error (NumError ''Atoi'' ''9223372036854775808'' ErrRange))"
    by (simp add: loadApp_def named_web PathJoin_web_VERSION fileContent_serve
        TrimSpace_examples Atoi_examples)
  have 4: "loadApp example_codecs
     (serve [(''web/VERSION'', ''x41''), (''web/app.env'', ''FOO=bar\<newline>''),
             (''web/image.txt'', ''nginx''), (''web/services.json'', ''{}'')]) (named ''web'') =
     Inr example_app"
    by (simp add: loadApp_def named_web PathJoin_web_VERSION PathJoin_web fileContent_serve
        decodeFile_def TrimSpace_examples Atoi_examples example_codecs_decoders example_dotenv_Read_FOO)
       (simp add: named_def example_app_def)
  show ?thesis using 2 3 4 by (simp add: example_app_def)
qed

theorem loadApp_version_witness:
  "loadApp example_codecs
     (serve [(''web/VERSION'', ''v41''), (''web/app.env'', ''FOO=bar\<newline>''),
             (''web/image.txt'', ''nginx''), (''web/services.json'', ''{}'')]) (named ''web'') =
     Inr example_app \<and>
   sint (Version example_app) = 41 \<and>
   (\<exists>k. loadApp example_codecs (serve [(''web/VERSION'', ''vx'')]) (named ''web'') =
      Inl (Error (NumError ''Atoi'' ''x'' k)))"
proof -
  let ?f = "serve [(''web/VERSION'', ''v41''), (''web/app.env'', ''FOO=bar\<newline>''),
             (''web/image.txt'', ''nginx''), (''web/services.json'', ''{}'')]"
  let ?n = "named ''web'' :: ((string \<times> string) list, string, string) App"
  have "\<forall>app'. loadApp example_codecs ?f ?n = Inr app' \<longrightarrow> sint (Version app') = 41"
    using loadApp_version[where f = ?f and app = ?n and c = example_codecs]
    by (simp add: named_web PathJoin_web_VERSION fileContent_serve TrimSpace_examples
        decimal_int_examples)
  then have "sint (Version example_app) = 41" using loadApp_example_41 by blast
  moreover have "\<exists>k. loadApp example_codecs (serve [(''web/VERSION'', ''vx'')]) ?n =
      Inl (Error (NumError ''Atoi'' ''x'' k))"
    using loadApp_version[where f = "serve [(''web/VERSION'', ''vx'')]" and app = ?n and c = example_codecs]
    by (simp add: named_web PathJoin_web_VERSION fileContent_serve TrimSpace_examples
        decimal_int_examples)
  ultimately show ?thesis using loadApp_example_41 by blast
qed

text \<open>
  Claim C7, as the code has it. When the \<^verbatim>\<open>services.json\<close> of the application is
  served and \<^verbatim>\<open>json.Unmarshal\<close> rejects it, \<^verbatim>\<open>loadApp\<close> returns no application; and
  when the version was read, it returns the error of \<^verbatim>\<open>json.Unmarshal\<close> as
  it is, which is made from the bytes of the file alone. (When the version was not read,
  it has failed or panicked there.)
\<close>

theorem loadApp_malformed_services:
  assumes "fileContent f (PathJoin (Name app) [FileServices]) = Inr raw"
    and "json_Unmarshal c raw (Formation app) = Inl msg"
  shows "(\<forall>app'. loadApp c f app \<noteq> Inr app') \<and>
    (\<forall>version first rest vi.
       fileContent f (PathJoin (Name app) [FileVersion]) = Inr version \<and>
       TrimSpace version = first # rest \<and> Atoi rest = Inr vi \<longrightarrow>
       loadApp c f app = Inl (Error (CodecError msg)))"
  using assms
  by (auto simp: loadApp_def Let_def decodeFile_def split: sum.splits list.splits)

lemma loadApp_example_malformed:
  "loadApp example_codecs
     (serve [(''web/VERSION'', ''v41''), (''web/app.env'', ''FOO=bar\<newline>''),
             (''web/image.txt'', ''nginx''), (''web/services.json'', ''{'')]) (named ''web'') =
   Inl (Error (CodecError ''unexpected end of JSON input''))"
  by (simp add: loadApp_def named_web PathJoin_web_VERSION PathJoin_web fileContent_serve
      decodeFile_def TrimSpace_examples Atoi_examples example_codecs_decoders)

text \<open>
  Claim C7 says that the error names \<^verbatim>\<open>services.json\<close>. \<^verbatim>\<open>decodeFile\<close> returns the
  error of \<^verbatim>\<open>json.Unmarshal\<close> unwrapped, and \<^verbatim>\<open>loadApp\<close> hands it on: for the
  truncated document \<^verbatim>\<open>{\<close> the error is \<^verbatim>\<open>unexpected end of JSON input\<close>, with no path.
\<close>

theorem loadApp_malformed_services_counterexample:
  "fileContent
     (serve [(''web/VERSION'', ''v41''), (''web/app.env'', ''FOO=bar\<newline>''),
             (''web/image.txt'', ''nginx''), (''web/services.json'', ''{'')])
     (PathJoin ''web'' [FileServices]) = Inr ''{'' \<and>
   json_Unmarshal example_codecs ''{'' None = Inl ''unexpected end of JSON input'' \<and>
   loadApp example_codecs
     (serve [(''web/VERSION'', ''v41''), (''web/app.env'', ''FOO=bar\<newline>''),
             (''web/image.txt'', ''nginx''), (''web/services.json'', ''{'')]) (named ''web'') =
     Inl (Error (CodecError ''unexpected end of JSON input'')) \<and>
   \<not> error_names ''services.json'' (CodecError ''unexpected end of JSON input'')"
  by (simp add: loadApp_example_malformed PathJoin_web fileContent_serve example_codecs_decoders
      error_names_def sublist_code)

theorem loadApp_malformed_services_witness:
  "(\<forall>app'. loadApp example_codecs
      (serve [(''web/VERSION'', ''v41''), (''web/app.env'', ''FOO=bar\<newline>''),
              (''web/image.txt'', ''nginx''), (''web/services.json'', ''{'')]) (named ''web'') \<noteq> Inr app') \<and>
   loadApp example_codecs
      (serve [(''web/VERSION'', ''v41''), (''web/app.env'', ''FOO=bar\<newline>''),
              (''web/image.txt'', ''nginx''), (''web/services.json'', ''{'')]) (named ''web'') =
     Inl (Error (CodecError ''unexpected end of JSON input''))"
proof -
  let ?f = "serve [(''web/VERSION'', ''v41''), (''web/app.env'', ''FOO=bar\<newline>''),
              (''web/image.txt'', ''nginx''), (''web/services.json'', ''{'')]"
  let ?n = "named ''web'' :: ((string \<times> string) list, string, string) App"
  have 1: "fileContent ?f (PathJoin (Name ?n) [FileServices]) = Inr ''{''"
    by (simp add: named_web PathJoin_web fileContent_serve)
  have 2: "json_Unmarshal example_codecs ''{'' (Formation ?n) = Inl ''unexpected end of JSON input''"
    by (simp add: example_codecs_decoders)
  have 3: "fileContent ?f (PathJoin (Name ?n) [FileVersion]) = Inr ''v41'' \<and>
       TrimSpace ''v41'' = CHR ''v'' # ''41'' \<and> Atoi ''41'' = Inr 41"
    by (simp add: named_web PathJoin_web_VERSION fileContent_serve TrimSpace_examples Atoi_examples)
  note th = loadApp_malformed_services[OF 1 2]
  show ?thesis
    using th[THEN conjunct1] th[THEN conjunct2, rule_format, OF 3] by blast
qed

subsection \<open>The history of releases\<close>

lemma Releases_loop_Inr:
  "Releases_loop c s name commits acc = Inr releases \<Longrightarrow>
     \<exists>new. releases = acc @ new \<and> list_all2 (reconstructs c s name) commits new"
proof (induction commits arbitrary: acc)
  case Nil
  then show ?case by simp
next
  case (Cons commit commits)
  from Cons.prems obtain sha app gitCommit message committer where
    f: "SHA commit = Some sha" "loadApp c (GetContentsAtRef s sha) (named name) = Inr app"
       "repository_Commit commit = Some gitCommit" "Message gitCommit = Some message"
       "Committer gitCommit = Some committer"
    and r: "Releases_loop c s name commits
              (acc @ [\<lparr>App = app, Description = message, CreatedAt = Date committer\<rparr>]) = Inr releases"
    by (auto split: option.splits sum.splits)
  from Cons.IH[OF r] obtain new where
    n: "releases = (acc @ [\<lparr>App = app, Description = message, CreatedAt = Date committer\<rparr>]) @ new"
       "list_all2 (reconstructs c s name) commits new"
    by blast
  have "reconstructs c s name commit \<lparr>App = app, Description = message, CreatedAt = Date committer\<rparr>"
    using f by (simp add: reconstructs_def)
  then have "list_all2 (reconstructs c s name) (commit # commits)
      (\<lparr>App = app, Description = message, CreatedAt = Date committer\<rparr> # new)"
    using n(2) by simp
  then show ?case using n(1) by (metis append.assoc append_Cons append_Nil)
qed

lemma Releases_loop_succeeds:
  "(\<forall>commit \<in> set commits. \<exists>release. reconstructs c s name commit release) \<Longrightarrow>
     \<exists>releases. Releases_loop c s name commits acc = Inr releases"
proof (induction commits arbitrary: acc)
  case Nil
  then show ?case by simp
next
  case (Cons commit commits)
  obtain release where "reconstructs c s name commit release" using Cons.prems by auto
  then obtain sha gitCommit message committer where
    f: "SHA commit = Some sha" "loadApp c (GetContentsAtRef s sha) (named name) = Inr (App release)"
       "repository_Commit commit = Some gitCommit" "Message gitCommit = Some message"
       "Committer gitCommit = Some committer"
    by (auto simp: reconstructs_def)
  have "\<forall>commit \<in> set commits. \<exists>release. reconstructs c s name commit release"
    using Cons.prems by simp
  from Cons.IH[OF this] show ?case using f by simp
qed

lemma Releases_loop_fails:
  "commit \<in> set commits \<Longrightarrow> SHA commit = Some sha \<Longrightarrow>
   loadApp c (GetContentsAtRef s sha) (named name) = Inl failure \<Longrightarrow>
     \<exists>failure'. Releases_loop c s name commits acc = Inl failure'"
proof (induction commits arbitrary: acc)
  case Nil
  then show ?case by simp
next
  case (Cons first commits)
  show ?case
  proof (cases "commit = first")
    case True
    then show ?thesis using Cons.prems by simp
  next
    case False
    then have "commit \<in> set commits" using Cons.prems by simp
    then have "\<And>acc. \<exists>failure'. Releases_loop c s name commits acc = Inl failure'"
      using Cons.IH Cons.prems by blast
    then show ?thesis
      by (simp split: option.splits sum.splits)
  qed
qed

text \<open>
  Claim C8. \<^verbatim>\<open>Releases\<close> asks for the commits of the target ref that touched the
  \<^verbatim>\<open>VERSION\<close> file of the application. What it returns has one release for each
  commit of the answer, in the order of the answer, and the release of a commit is the
  one reconstructed from it: decoded by a fetcher bound to the SHA of that commit,
  described by its message and dated by its committer. It returns the releases when
  every commit can be reconstructed, and fails as a whole when the decoding for one of
  the commits fails.
\<close>

theorem Releases_reconstructs_history:
  "(Releases c s q = Inr releases \<longrightarrow>
      (\<exists>app commits. query_App q = Some app \<and>
         Repositories_ListCommits (github s) (Owner s) (Repo s) (Ref s)
           (Storage_Path s [Name app, FileVersion]) = Inr commits \<and>
         list_all2 (reconstructs c s (Name app)) commits releases)) \<and>
   (query_App q = Some app \<and>
    Repositories_ListCommits (github s) (Owner s) (Repo s) (Ref s)
      (Storage_Path s [Name app, FileVersion]) = Inr commits \<longrightarrow>
      ((\<forall>commit \<in> set commits. \<exists>release. reconstructs c s (Name app) commit release) \<longrightarrow>
         (\<exists>releases. Releases c s q = Inr releases)) \<and>
      (\<forall>commit sha failure. commit \<in> set commits \<and> SHA commit = Some sha \<and>
         loadApp c (GetContentsAtRef s sha) (named (Name app)) = Inl failure \<longrightarrow>
         (\<exists>failure'. Releases c s q = Inl failure')))"
proof (intro conjI impI allI)
  assume "Releases c s q = Inr releases"
  then obtain app commits where a: "query_App q = Some app"
    "Repositories_ListCommits (github s) (Owner s) (Repo s) (Ref s)
           (Storage_Path s [Name app, FileVersion]) = Inr commits"
    "Releases_loop c s (Name app) commits [] = Inr releases"
    by (auto simp: Releases_def split: option.splits sum.splits)
  from Releases_loop_Inr[OF a(3)] have "list_all2 (reconstructs c s (Name app)) commits releases"
    by simp
  then show "\<exists>app commits. query_App q = Some app \<and>
         Repositories_ListCommits (github s) (Owner s) (Repo s) (Ref s)
           (Storage_Path s [Name app, FileVersion]) = Inr commits \<and>
         list_all2 (reconstructs c s (Name app)) commits releases"
    using a by blast
next
  assume a: "query_App q = Some app \<and>
    Repositories_ListCommits (github s) (Owner s) (Repo s) (Ref s)
      (Storage_Path s [Name app, FileVersion]) = Inr commits"
    and "\<forall>commit \<in> set commits. \<exists>release. reconstructs c s (Name app) commit release"
  then show "\<exists>releases. Releases c s q = Inr releases"
    using Releases_loop_succeeds[of commits c s "Name app" "[]"] by (simp add: Releases_def)
next
  fix commit sha failure
  assume a: "query_App q = Some app \<and>
    Repositories_ListCommits (github s) (Owner s) (Repo s) (Ref s)
      (Storage_Path s [Name app, FileVersion]) = Inr commits"
    and "commit \<in> set commits \<and> SHA commit = Some sha \<and>
         loadApp c (GetContentsAtRef s sha) (named (Name app)) = Inl failure"
  then show "\<exists>failure'. Releases c s q = Inl failure'"
    using Releases_loop_fails[of commit commits sha c s "Name app" failure "[]"]
    by (simp add: Releases_def)
qed

lemma QueryEscape_web_files:
  "QueryEscape ''web/VERSION'' = ''web%2FVERSION''"
  "QueryEscape ''web/services.json'' = ''web%2Fservices.json''"
  "QueryEscape ''web/image.txt'' = ''web%2Fimage.txt''"
  "QueryEscape ''web/app.env'' = ''web%2Fapp.env''"
  by (simp_all add: QueryEscape_def escape_byte_def shouldEscape_def is_letter_def is_digit_def
      upperhex_def)

lemma fileContent_example:
  "fileContent (GetContentsAtRef example_storage ref) p =
     (case map_of (example_files ref) (''base/'' @ QueryEscape p) of
        None \<Rightarrow> Inl (Error (Errorf_get_contents_of p (GitHubError ''404 Not Found'')))
      | Some raw \<Rightarrow> Inr raw)"
  by (simp add: fileContent_def GetContentsAtRef_def example_storage_def example_client_def
      Storage_Path_def PathJoin_structure file_of_def split: option.splits)

lemma TrimSpace_v1_v2: "TrimSpace ''v2'' = ''v2''"
  by (simp add: TrimSpace_def trim_front.simps rune_width_def space_runes_def)

lemma Atoi_2: "Atoi ''2'' = Inr 2"
  by (simp add: Atoi_def ParseInt_def is_digit_def)

lemma loadApp_example_at:
  "loadApp example_codecs (GetContentsAtRef example_storage ref) (named ''web'') =
     Inr (example_app\<lparr>Version := (if ref = ''c1'' then 1 else 2)\<rparr>)"
  by (simp add: loadApp_def named_web PathJoin_web_VERSION PathJoin_web fileContent_example
      QueryEscape_web_files example_files_def decodeFile_def TrimSpace_examples TrimSpace_v1_v2
      Atoi_examples Atoi_2 example_codecs_decoders example_dotenv_Read_FOO)
     (simp add: named_def example_app_def)

lemma Releases_example:
  "Releases example_codecs example_storage \<lparr>query_App = Some (named ''web'')\<rparr> =
     Inr [\<lparr>App = example_app\<lparr>Version := 2\<rparr>, Description = ''second'', CreatedAt = Some 200\<rparr>,
          \<lparr>App = example_app\<lparr>Version := 1\<rparr>, Description = ''first'', CreatedAt = Some 100\<rparr>]"
proof -
  have l: "Repositories_ListCommits (github example_storage) (Owner example_storage)
      (Repo example_storage) (Ref example_storage) p =
      Inr [example_commit ''c2'' ''second'' 200, example_commit ''c1'' ''first'' 100]" for p
    by (simp add: example_storage_def example_client_def)
  show ?thesis
    by (simp add: Releases_def l named_web example_commit_def loadApp_example_at)
qed

theorem Releases_reconstructs_history_witness:
  "Releases example_codecs example_storage \<lparr>query_App = Some (named ''web'')\<rparr> =
     Inr [\<lparr>App = example_app\<lparr>Version := 2\<rparr>, Description = ''second'', CreatedAt = Some 200\<rparr>,
          \<lparr>App = example_app\<lparr>Version := 1\<rparr>, Description = ''first'', CreatedAt = Some 100\<rparr>] \<and>
   reconstructs example_codecs example_storage ''web'' (example_commit ''c2'' ''second'' 200)
     \<lparr>App = example_app\<lparr>Version := 2\<rparr>, Description = ''second'', CreatedAt = Some 200\<rparr> \<and>
   reconstructs example_codecs example_storage ''web'' (example_commit ''c1'' ''first'' 100)
     \<lparr>App = example_app\<lparr>Version := 1\<rparr>, Description = ''first'', CreatedAt = Some 100\<rparr>"
proof -
  let ?q = "\<lparr>query_App = Some (named ''web'' :: ((string \<times> string) list, string, string) App)\<rparr>"
  let ?r2 = "\<lparr>App = example_app\<lparr>Version := 2\<rparr>, Description = ''second'', CreatedAt = Some 200\<rparr>"
  let ?r1 = "\<lparr>App = example_app\<lparr>Version := 1\<rparr>, Description = ''first'', CreatedAt = Some 100\<rparr>"
  have "\<exists>app commits. query_App ?q = Some app \<and>
         Repositories_ListCommits (github example_storage) (Owner example_storage)
           (Repo example_storage) (Ref example_storage)
           (Storage_Path example_storage [Name app, FileVersion]) = Inr commits \<and>
         list_all2 (reconstructs example_codecs example_storage (Name app)) commits [?r2, ?r1]"
    using Releases_reconstructs_history[THEN conjunct1, rule_format, OF Releases_example] .
  then have "list_all2 (reconstructs example_codecs example_storage ''web'')
      [example_commit ''c2'' ''second'' 200, example_commit ''c1'' ''first'' 100] [?r2, ?r1]"
    by (simp add: named_web example_storage_def example_client_def)
  then show ?thesis using Releases_example by simp
qed

subsection \<open>Finding an application\<close>

lemma Apps_loop_failure: "Apps_loop fs acc = Inl failure \<Longrightarrow> failure = Panic NilDereference"
  by (induction fs arbitrary: acc) (auto split: option.splits if_splits)

lemma Apps_failure:
  "Apps s q = Inl failure \<Longrightarrow>
     failure = Panic NilDereference \<or>
     (\<exists>msg. failure = Error (Errorf_get_contents_in (BasePath s) (Ref s) (GitHubError msg)))"
  using Apps_loop_failure by (fastforce simp: Apps_def split: sum.splits prod.splits)

lemma Atoi_error_shape: "Atoi s = Inl err \<Longrightarrow> \<exists>k. err = NumError ''Atoi'' s k"
  by (auto simp: Atoi_def split: sum.splits)

lemma decodeFile_error_shape:
  "decodeFile c f p v = Inl (Error err) \<Longrightarrow>
     (\<exists>msg. err = Errorf_get_contents_of p (GitHubError msg)) \<or>
     (\<exists>msg. err = Errorf_decoding p (GitHubError msg)) \<or> (\<exists>msg. err = CodecError msg)"
  using fileContent_error_shape[of f p err]
  by (auto simp: decodeFile_def split: sum.splits)

lemma loadApp_not_NotFoundError: "loadApp c f app \<noteq> Inl (Error (NotFoundError err))"
proof
  assume a: "loadApp c f app = Inl (Error (NotFoundError err))"
  let ?e = "NotFoundError err"
  note fc = fileContent_error_shape[of f _ ?e]
  show False
  proof (cases "fileContent f (PathJoin (Name app) [FileVersion])")
    case (Inl failure)
    then show False using a fc by (auto simp: loadApp_def)
  next
    case (Inr version)
    show False
    proof (cases "TrimSpace version")
      case Nil
      then show False using a Inr by (simp add: loadApp_def)
    next
      case (Cons first rest)
      show False
      proof (cases "Atoi rest")
        case (Inl e)
        then show False using a Inr Cons Atoi_error_shape[OF Inl] by (auto simp: loadApp_def)
      next
        case (Inr vi)
        show False
          using a fc decodeFile_error_shape[of c f _ _ ?e]
          unfolding loadApp_after_version[OF \<open>fileContent f (PathJoin (Name app) [FileVersion]) = Inr version\<close> Cons Inr]
          by (auto split: sum.splits)
      qed
    qed
  qed
qed

text \<open>
  Claim C9. When the filtered listing is empty, \<^verbatim>\<open>AppsFind\<close> returns the not-found
  error. When it is not, \<^verbatim>\<open>AppsFind\<close> returns what \<^verbatim>\<open>loadApp\<close> makes of its first
  application, whatever the rest of the listing is. A failure of the listing is returned as
  it is and is no not-found error; and \<^verbatim>\<open>AppsFind\<close> returns a not-found error in no other
  case than the empty listing, so a caller can tell it from every other failure.
\<close>

theorem AppsFind_first_or_not_found:
  fixes c :: "('env, 'img, 'form) codecs" and app :: "('env, 'img, 'form) App"
  shows
  "(Apps s q = (Inr [] :: failure + ('env, 'img, 'form) App list) \<longrightarrow>
      AppsFind c s q = Inl (Error (NotFoundError (ErrorsNew ''app not found'')))) \<and>
   (Apps s q = Inr (app # rest) \<longrightarrow> AppsFind c s q = loadApp c (GetContents s) app) \<and>
   (Apps s q = (Inl failure :: failure + ('env, 'img, 'form) App list) \<longrightarrow>
      AppsFind c s q = Inl failure \<and> failure \<noteq> Error (NotFoundError err)) \<and>
   (AppsFind c s q = Inl (Error (NotFoundError err)) \<longrightarrow>
      Apps s q = (Inr [] :: failure + ('env, 'img, 'form) App list) \<and> err = ErrorsNew ''app not found'')"
proof (intro conjI impI)
  assume a: "AppsFind c s q = Inl (Error (NotFoundError err))"
  show "Apps s q = (Inr [] :: failure + ('env, 'img, 'form) App list)"
  proof (cases "Apps s q :: failure + ('env, 'img, 'form) App list")
    case (Inl failure)
    then show ?thesis using a Apps_failure[OF Inl] by (auto simp: AppsFind_def)
  next
    case (Inr apps)
    then show ?thesis using a loadApp_not_NotFoundError[of c "GetContents s" _ err]
      by (cases apps) (auto simp: AppsFind_def)
  qed
  then show "err = ErrorsNew ''app not found''" using a by (simp add: AppsFind_def)
next
  assume "Apps s q = (Inl failure :: failure + ('env, 'img, 'form) App list)"
  then show "failure \<noteq> Error (NotFoundError err)" using Apps_failure by fastforce
qed (simp_all add: AppsFind_def)

lemma filter_apps_filter: "filter_apps apps fn filtered = filtered @ filter fn apps"
  by (induction apps arbitrary: filtered) auto

lemma Apps_example:
  "Apps example_storage q =
     Inr (filterApps [named ''web'', named ''api''] q)"
  by (simp add: Apps_def GetContents_def GetContentsAtRef_def Storage_Path_def PathJoin_def
      example_storage_def example_client_def entry_of_def)

theorem AppsFind_first_or_not_found_witness:
  "Apps example_storage \<lparr>query_Name = None\<rparr> =
     (Inr [named ''web'', named ''api''] :: failure + ((string \<times> string) list, string, string) App list) \<and>
   AppsFind example_codecs example_storage \<lparr>query_Name = None\<rparr> = Inr (example_app\<lparr>Version := 2\<rparr>) \<and>
   AppsFind example_codecs example_storage \<lparr>query_Name = Some ''worker''\<rparr> =
     Inl (Error (NotFoundError (ErrorsNew ''app not found'')))"
proof -
  have 1: "Apps example_storage \<lparr>query_Name = None\<rparr> =
     (Inr [named ''web'', named ''api''] :: failure + ((string \<times> string) list, string, string) App list)"
    by (simp add: Apps_example filterApps_def)
  have 2: "Apps example_storage \<lparr>query_Name = Some ''worker''\<rparr> =
     (Inr [] :: failure + ((string \<times> string) list, string, string) App list)"
    by (simp add: Apps_example filterApps_def named_def)
  have l: "loadApp example_codecs (GetContents example_storage) (named ''web'') =
      Inr (example_app\<lparr>Version := 2\<rparr>)"
    using loadApp_example_at[of "Ref example_storage"]
    by (simp add: GetContents_def) (simp add: example_storage_def)
  note th = AppsFind_first_or_not_found[where c = example_codecs and s = example_storage]
  have "AppsFind example_codecs example_storage \<lparr>query_Name = None\<rparr> =
      loadApp example_codecs (GetContents example_storage) (named ''web'')"
    using th[THEN conjunct2, THEN conjunct1, rule_format, OF 1] .
  moreover have "AppsFind example_codecs example_storage \<lparr>query_Name = Some ''worker''\<rparr> =
     Inl (Error (NotFoundError (ErrorsNew ''app not found'')))"
    using th[THEN conjunct1, rule_format, OF 2] .
  ultimately show ?thesis using 1 l by simp
qed

end
